theory Spec2Isabelle
  imports Complex_Main
begin

section \<open>ERA-5 raster extraction: \<open>era_temp_overlay.py\<close>\<close>

text \<open>
  A shallow embedding of the script \<open>src/era_temp_overlay.py\<close>. The script is one
  module: a function \<open>convert_units\<close> and a sequence of module-level loops over a
  dictionary of dictionaries. Python values are a datatype, Python dictionaries are
  association lists with distinct keys in insertion order, every \<open>raise\<close> is a value
  \<open>Inl e\<close> of a sum type, and the effects of the run (messages, files) are an event list.

  Python floats are idealised as \<open>real\<close>: arithmetic is exact, and a cell that is not a
  number (NaN, infinity) is outside the model. Strings are lists of \<open>char\<close>, that is
  code points up to 255.
\<close>

subsection \<open>Python values and errors\<close>

datatype pyval =
    PyNone
  | PyInt int
  | PyFloat real
  | PyStr string
  | PyDate64 nat nat nat  \<comment> \<open>a \<open>numpy.datetime64\<close>: year, month, day\<close>

datatype error =
    ValueError_no_match string     \<comment> \<open>\<open>time data %r does not match format %r\<close>\<close>
  | ValueError_unconverted string  \<comment> \<open>\<open>unconverted data remains: %s\<close>\<close>
  | ValueError_out_of_range        \<comment> \<open>\<open>datetime.date\<close>: year or day out of range\<close>
  | ValueError_datetime64 string   \<comment> \<open>\<open>numpy.datetime64\<close>: error parsing the string\<close>
  | TypeError
  | AttributeError
  | KeyError
  | StopIteration

subsection \<open>Configuration (the module-level variables)\<close>

record config =
  varname :: string
  obnum :: string
  obname :: string
  obdate :: string
  startdate :: string
  standard_date :: bool

subsection \<open>\<open>convert_units\<close> (lines 62--71)\<close>

definition convert_units :: "string \<Rightarrow> real \<Rightarrow> real" where
  "convert_units vn v =
     (if vn = ''temp'' then v - 272.15
      else if vn = ''precip'' then v * 1000
      else v)"

text \<open>
  Python's \<open>round(x, 4)\<close> on a float: the nearest multiple of \<open>10\<^sup>-\<^sup>4\<close>, a tie going
  to the even one.
\<close>

definition round_half_even :: "real \<Rightarrow> int" where
  "round_half_even y =
     (let f = \<lfloor>y\<rfloor>; d = y - of_int f
      in if d < 1 / 2 then f
         else if 1 / 2 < d then f + 1
         else if even f then f else f + 1)"

definition py_round4 :: "real \<Rightarrow> real" where
  "py_round4 x = of_int (round_half_even (x * 10000)) / 10000"

subsection \<open>Dictionaries\<close>

type_synonym ('k, 'v) dict = "('k \<times> 'v) list"

fun dict_get :: "('k, 'v) dict \<Rightarrow> 'k \<Rightarrow> 'v option" where
  "dict_get [] k = None"
| "dict_get ((k', v) # d) k = (if k' = k then Some v else dict_get d k)"

text \<open>\<open>d[k] = v\<close>: an existing key keeps its place, a new key goes to the end.\<close>

fun dict_set :: "('k, 'v) dict \<Rightarrow> 'k \<Rightarrow> 'v \<Rightarrow> ('k, 'v) dict" where
  "dict_set [] k v = [(k, v)]"
| "dict_set ((k', v') # d) k v =
     (if k' = k then (k, v) # d else (k', v') # dict_set d k v)"

text \<open>A dictionary display \<open>{k1: v1, k2: v2, ...}\<close>.\<close>

definition dict_of :: "('k \<times> 'v) list \<Rightarrow> ('k, 'v) dict" where
  "dict_of kvs = foldl (\<lambda>d (k, v). dict_set d k v) [] kvs"

text \<open>
  \<open>for k, v in d.items(): d[k] = f(v)\<close>, where \<open>f\<close> may raise: the values are replaced
  in order, and the first error ends the loop. The keys of a dictionary are distinct,
  so \<open>d[k]\<close> inside the loop is the \<open>v\<close> of the iteration.
\<close>

fun for_items :: "('v \<Rightarrow> error + 'v) \<Rightarrow> ('k, 'v) dict \<Rightarrow> error + ('k, 'v) dict" where
  "for_items f [] = Inr []"
| "for_items f ((k, v) # d) =
     (case f v of
        Inl e \<Rightarrow> Inl e
      | Inr v' \<Rightarrow> (case for_items f d of Inl e \<Rightarrow> Inl e | Inr d' \<Rightarrow> Inr ((k, v') # d')))"

subsection \<open>Year-month values and their text\<close>

definition is_digit :: "char \<Rightarrow> bool" where
  "is_digit c = (c \<in> set ''0123456789'')"

definition digit_val :: "char \<Rightarrow> nat" where
  "digit_val c = of_char c - 48"

definition read_nat :: "string \<Rightarrow> nat" where
  "read_nat s = foldl (\<lambda>a c. 10 * a + digit_val c) 0 s"

definition digit_char :: "nat \<Rightarrow> char" where
  "digit_char d = ''0123456789'' ! d"

fun show_nat :: "nat \<Rightarrow> string" where
  "show_nat n =
     (if n < 10 then [digit_char n]
      else show_nat (n div 10) @ [digit_char (n mod 10)])"

declare show_nat.simps [simp del]

definition zero_pad :: "nat \<Rightarrow> string \<Rightarrow> string" where
  "zero_pad w s = replicate (w - length s) (CHR ''0'') @ s"

text \<open>
  A \<open>numpy.datetime64\<close> of unit month is a count of months; here the count starts at
  January of year 0, so month \<open>ym\<close> is month \<open>ym mod 12 + 1\<close> of year \<open>ym div 12\<close>.
  Its text, from \<open>str\<close> and from \<open>numpy.datetime_as_string(..., unit='M')\<close> alike, is the
  year on four digits at least, a hyphen, and the month on two digits.
\<close>

definition ym_text :: "nat \<Rightarrow> nat \<Rightarrow> string" where
  "ym_text y m = zero_pad 4 (show_nat y) @ ''-'' @ zero_pad 2 (show_nat m)"

definition str_yearmonth :: "nat \<Rightarrow> string" where
  "str_yearmonth ym = ym_text (ym div 12) (ym mod 12 + 1)"

text \<open>
  \<open>numpy.datetime64(startdate)\<close> for a start date written as the script asks, \<open>YYYY-MM\<close>.
  Any other text is an error here; numpy also reads other ISO 8601 forms, which the
  script's instructions exclude.
\<close>

definition np_datetime64 :: "string \<Rightarrow> error + nat" where
  "np_datetime64 s =
     (case s of
        [a, b, c, d, sep, e, f] \<Rightarrow>
          (if list_all is_digit [a, b, c, d, e, f] \<and> sep = CHR ''-''
               \<and> 1 \<le> read_nat [e, f] \<and> read_nat [e, f] \<le> 12
           then Inr (read_nat [a, b, c, d] * 12 + (read_nat [e, f] - 1))
           else Inl (ValueError_datetime64 s))
      | _ \<Rightarrow> Inl (ValueError_datetime64 s))"

text \<open>\<open>numpy.datetime_as_string(numdate, unit='M')\<close> takes a \<open>datetime64\<close> and nothing else.\<close>

definition datetime_as_string_M :: "pyval \<Rightarrow> error + string" where
  "datetime_as_string_M x =
     (case x of PyDate64 y m d \<Rightarrow> Inr (ym_text y m) | _ \<Rightarrow> Inl TypeError)"

subsection \<open>\<open>str.strip\<close> and \<open>datetime.strptime(s, '%m/%d/%Y')\<close>\<close>

definition py_isspace :: "char \<Rightarrow> bool" where
  "py_isspace c =
     (let n = (of_char c :: nat)
      in (9 \<le> n \<and> n \<le> 13) \<or> (28 \<le> n \<and> n \<le> 32) \<or> n = 133 \<or> n = 160)"

definition strip :: "string \<Rightarrow> string" where
  "strip s = rev (dropWhile py_isspace (rev (dropWhile py_isspace s)))"

text \<open>The directive \<open>%m\<close> is the regular expression \<open>1[0-2]|0[1-9]|[1-9]\<close>.\<close>

definition month_re :: "string \<Rightarrow> bool" where
  "month_re t =
     (case t of
        [a] \<Rightarrow> a \<in> set ''123456789''
      | [a, b] \<Rightarrow> (a = CHR ''1'' \<and> b \<in> set ''012'') \<or> (a = CHR ''0'' \<and> b \<in> set ''123456789'')
      | _ \<Rightarrow> False)"

text \<open>The directive \<open>%d\<close> is \<open>3[0-1]|[1-2]\d|0[1-9]|[1-9]| [1-9]\<close>.\<close>

definition day_re :: "string \<Rightarrow> bool" where
  "day_re t =
     (case t of
        [a] \<Rightarrow> a \<in> set ''123456789''
      | [a, b] \<Rightarrow> (a = CHR ''3'' \<and> b \<in> set ''01'') \<or> (a \<in> set ''12'' \<and> is_digit b)
                  \<or> (a \<in> set ''0 '' \<and> b \<in> set ''123456789'')
      | _ \<Rightarrow> False)"

text \<open>\<open>int(t)\<close> on the text of a directive: surrounding blanks are ignored.\<close>

definition py_int :: "string \<Rightarrow> nat" where
  "py_int t = read_nat (strip t)"

definition is_leap :: "nat \<Rightarrow> bool" where
  "is_leap y = (y mod 4 = 0 \<and> (y mod 100 \<noteq> 0 \<or> y mod 400 = 0))"

definition days_in_month :: "nat \<Rightarrow> nat \<Rightarrow> nat" where
  "days_in_month y m =
     (if m = 2 then (if is_leap y then 29 else 28)
      else if m \<in> {4, 6, 9, 11} then 30 else 31)"

text \<open>The text before the first slash and the text after it.\<close>

definition split_slash :: "string \<Rightarrow> (string \<times> string) option" where
  "split_slash s =
     (if CHR ''/'' \<in> set s
      then Some (takeWhile (\<lambda>c. c \<noteq> CHR ''/'') s, tl (dropWhile (\<lambda>c. c \<noteq> CHR ''/'') s))
      else None)"

text \<open>
  \<open>strptime\<close> matches \<open>%m/%d/%Y\<close> at the start of the text: the month and day
  directives hold no slash and each is followed by one, so they are the texts before the
  first and the second slash; \<open>%Y\<close> is four digits. Text left after the year is an
  error, and so is a date that \<open>datetime.date\<close> refuses (year 0, or a day the month does
  not have). The result is the year, the month and the day.
\<close>

definition strptime_mdY :: "string \<Rightarrow> error + (nat \<times> nat \<times> nat)" where
  "strptime_mdY s =
     (case split_slash s of
        None \<Rightarrow> Inl (ValueError_no_match s)
      | Some (mt, r) \<Rightarrow>
          (case split_slash r of
             None \<Rightarrow> Inl (ValueError_no_match s)
           | Some (dt, yt) \<Rightarrow>
               if month_re mt \<and> day_re dt \<and> 4 \<le> length yt \<and> list_all is_digit (take 4 yt)
               then (if length yt \<noteq> 4 then Inl (ValueError_unconverted (drop 4 yt))
                     else (let y = py_int yt; m = py_int mt; d = py_int dt
                           in if y < 1 \<or> days_in_month y m < d then Inl ValueError_out_of_range
                              else Inr (y, m, d)))
               else Inl (ValueError_no_match s)))"

subsection \<open>The inputs: points and raster\<close>

text \<open>
  A row of the point file: the three columns the script reads and the coordinates of the
  geometry. The cells are Python values of whatever type the file reader gave them.
\<close>

record point =
  p_id :: pyval
  p_name :: pyval
  p_date :: pyval
  p_x :: real
  p_y :: real

text \<open>
  The raster as the script uses it: the number of bands, the shape of the grid,
  \<open>raster.index(x, y)\<close> and the cell \<open>raster.read(band_index)[row, col]\<close>.
\<close>

record raster =
  r_count :: nat
  r_height :: int
  r_width :: int
  r_index :: "real \<Rightarrow> real \<Rightarrow> int \<times> int"
  r_read :: "nat \<Rightarrow> int \<Rightarrow> int \<Rightarrow> real"

type_synonym row = "(string, pyval) dict"
type_synonym result_dict = "(pyval, row) dict"

subsection \<open>The raster row and column of each point (lines 100--110)\<close>

definition locate_point :: "config \<Rightarrow> raster \<Rightarrow> result_dict \<Rightarrow> point \<Rightarrow> result_dict" where
  "locate_point cfg ras rd p =
     (let (row, col) = r_index ras (p_x p) (p_y p)
      in dict_set rd (p_id p)
           (dict_of [(obname cfg, p_name p), (obdate cfg, p_date p),
                     (''RASTER_ROW'', PyInt row), (''RASTER_COL'', PyInt col)]))"

definition locate_points :: "config \<Rightarrow> raster \<Rightarrow> point list \<Rightarrow> result_dict" where
  "locate_points cfg ras ps = foldl (locate_point cfg ras) [] ps"

subsection \<open>The loop over the bands (lines 114--127)\<close>

text \<open>The body of the inner loop, for one band and one point's dictionary \<open>v\<close>.\<close>

definition sample_point :: "config \<Rightarrow> raster \<Rightarrow> nat \<Rightarrow> nat \<Rightarrow> row \<Rightarrow> error + row" where
  "sample_point cfg ras band_index yearmonth v =
     (case dict_get v ''RASTER_ROW'' of
        None \<Rightarrow> Inl KeyError
      | Some rr \<Rightarrow>
          (case dict_get v ''RASTER_COL'' of
             None \<Rightarrow> Inl KeyError
           | Some rc \<Rightarrow>
               (case (rr, rc) of
                  (PyInt rrow, PyInt rcol) \<Rightarrow>
                    if rrow < 0 \<or> rrow \<ge> r_height ras \<or> rcol < 0 \<or> rcol \<ge> r_width ras
                    then Inr (dict_set v (''YM-'' @ str_yearmonth yearmonth) PyNone)
                    else (let climval = r_read ras band_index rrow rcol;
                              climval_new = py_round4 (convert_units (varname cfg) climval)
                          in Inr (dict_set v (''YM-'' @ str_yearmonth yearmonth)
                                    (PyFloat climval_new)))
                | _ \<Rightarrow> Inl TypeError)))"

text \<open>
  The outer loop over \<open>range(1, raster.count + 1)\<close>; \<open>yearmonth\<close> moves on by one month
  after each band.
\<close>

fun sample_bands ::
  "config \<Rightarrow> raster \<Rightarrow> nat list \<Rightarrow> nat \<Rightarrow> result_dict \<Rightarrow> error + result_dict" where
  "sample_bands cfg ras [] yearmonth rd = Inr rd"
| "sample_bands cfg ras (band_index # bs) yearmonth rd =
     (case for_items (sample_point cfg ras band_index yearmonth) rd of
        Inl e \<Rightarrow> Inl e
      | Inr rd' \<Rightarrow> sample_bands cfg ras bs (yearmonth + 1) rd')"

subsection \<open>The value of the observation date (lines 131--142)\<close>

definition resolve_date :: "config \<Rightarrow> pyval \<Rightarrow> error + string" where
  "resolve_date cfg raw =
     (case (if \<not> standard_date cfg
            then (case raw of
                    PyStr s \<Rightarrow>
                      (case strptime_mdY (strip s) of
                         Inl e \<Rightarrow> Inl e
                       | Inr (y, m, d) \<Rightarrow> Inr (PyDate64 y m d))
                  | _ \<Rightarrow> Inl AttributeError)
            else Inr raw) of
        Inl e \<Rightarrow> Inl e
      | Inr numdate \<Rightarrow>
          (case datetime_as_string_M numdate of
             Inl e \<Rightarrow> Inl e
           | Inr s \<Rightarrow> Inr (''YM-'' @ s)))"

definition match_point :: "config \<Rightarrow> row \<Rightarrow> error + row" where
  "match_point cfg v =
     (case dict_get v (obdate cfg) of
        None \<Rightarrow> Inl KeyError
      | Some raw \<Rightarrow>
          (case resolve_date cfg raw of
             Inl e \<Rightarrow> Inl e
           | Inr obyrmonth \<Rightarrow>
               (let matchdate = (case dict_get v obyrmonth of Some x \<Rightarrow> x | None \<Rightarrow> PyNone)
                in Inr (dict_set v ''MATCH_VALUE'' matchdate))))"

subsection \<open>From the dictionary to the rows of the output (lines 145--153)\<close>

definition result_rows :: "config \<Rightarrow> result_dict \<Rightarrow> error + pyval list list" where
  "result_rows cfg rd =
     (case rd of
        [] \<Rightarrow> Inl StopIteration
      | (firstkey, v0) # _ \<Rightarrow>
          Inr ((PyStr (obnum cfg) # map (\<lambda>(k2, v2). PyStr k2) v0)
               # map (\<lambda>(k, v). k # map snd v) rd))"

subsection \<open>The core: from the points and the raster to the result dictionary\<close>

text \<open>The dictionary after the loop over the bands (line 127).\<close>

definition sampling ::
  "config \<Rightarrow> raster \<Rightarrow> nat \<Rightarrow> point list \<Rightarrow> error + result_dict" where
  "sampling cfg ras yearmonth ps =
     sample_bands cfg ras [1 ..< r_count ras + 1] yearmonth (locate_points cfg ras ps)"

text \<open>The dictionary after the loop over the observation dates (line 142).\<close>

definition extraction ::
  "config \<Rightarrow> raster \<Rightarrow> nat \<Rightarrow> point list \<Rightarrow> error + result_dict" where
  "extraction cfg ras yearmonth ps =
     (case sampling cfg ras yearmonth ps of
        Inl e \<Rightarrow> Inl e
      | Inr rd \<Rightarrow> for_items (match_point cfg) rd)"

subsection \<open>The run of the script\<close>

text \<open>
  What the run does to the outside is a list of events; how it ends is a
  \<open>ending\<close>. \<open>sys.exit()\<close> without an argument raises \<open>SystemExit(None)\<close>, and the
  interpreter then ends with status 0; an exception nobody catches ends it with status 1.
\<close>

datatype event =
    MakeDirs string
  | ReadPoints
  | Print string
  | OpenRaster
  | Plot
  | WriteCsv string "pyval list list"
  | PrintDone nat nat string string

datatype ending = Completed | SystemExit "int option" | Uncaught error

definition exit_status :: "ending \<Rightarrow> int" where
  "exit_status t =
     (case t of
        Completed \<Rightarrow> 0
      | SystemExit None \<Rightarrow> 0
      | SystemExit (Some n) \<Rightarrow> n
      | Uncaught e \<Rightarrow> 1)"

record env =
  outfolder_exists :: bool
  point_data :: "point list"
  raster_data :: raster
  today :: string

definition fail_duplicate :: string where
  "fail_duplicate =
     CHR 0x0A # '' FAIL: unique ID column in the input file contains duplicate values, cannot proceed.''"

definition fail_varname :: string where
  "fail_varname =
     CHR 0x0A # '' FAIL: variable name must be set to either '' @ CHR 0x22 # ''temp''
       @ CHR 0x22 # '' or '' @ CHR 0x22 # ''precip'' @ [CHR 0x22]"

definition main :: "config \<Rightarrow> env \<Rightarrow> event list \<times> ending" where
  "main cfg ev =
     (case np_datetime64 (startdate cfg) of
        Inl e \<Rightarrow> ([], Uncaught e)
      | Inr yearmonth \<Rightarrow>
          (let ev1 = (if \<not> outfolder_exists ev then [MakeDirs ''output''] else []) @ [ReadPoints]
           in if \<not> distinct (map p_id (point_data ev))
              then (ev1 @ [Print fail_duplicate], SystemExit None)
              else if varname cfg \<notin> {''temp'', ''precip''}
              then (ev1 @ [Print fail_varname], SystemExit None)
              else (case extraction cfg (raster_data ev) yearmonth (point_data ev) of
                      Inl e \<Rightarrow> (ev1 @ [OpenRaster, OpenRaster], Uncaught e)
                    | Inr rd \<Rightarrow>
                        (case result_rows cfg rd of
                           Inl e \<Rightarrow> (ev1 @ [OpenRaster, OpenRaster], Uncaught e)
                         | Inr result_list \<Rightarrow>
                             (let outfile = varname cfg @ ''_'' @ today ev @ ''.csv''
                              in (ev1 @ [OpenRaster, OpenRaster, OpenRaster, Plot,
                                         WriteCsv outfile result_list,
                                         PrintDone (length result_list) (length (hd result_list))
                                           (varname cfg) (''output/'' @ outfile)],
                                  Completed))))))"

subsection \<open>Notions for the proofs\<close>

text \<open>
  The definitions of this subsection are not translations of code: they name what the
  loops compute, so that the lemmas below can say it. \<open>base_row\<close> is the dictionary
  display of line 106 for a point, \<open>cell_value\<close> the value the band loop stores for a
  cell address, \<open>add_bands\<close> the band loop as seen from one point, \<open>series\<close> a
  point's dictionary after the band loop and \<open>matched\<close> the same after the date loop.
\<close>

definition base_row :: "config \<Rightarrow> raster \<Rightarrow> point \<Rightarrow> row" where
  "base_row cfg ras p =
     dict_of [(obname cfg, p_name p), (obdate cfg, p_date p),
              (''RASTER_ROW'', PyInt (fst (r_index ras (p_x p) (p_y p)))),
              (''RASTER_COL'', PyInt (snd (r_index ras (p_x p) (p_y p))))]"

definition cell_value :: "config \<Rightarrow> raster \<Rightarrow> nat \<Rightarrow> int \<Rightarrow> int \<Rightarrow> pyval" where
  "cell_value cfg ras b r c =
     (if r < 0 \<or> r \<ge> r_height ras \<or> c < 0 \<or> c \<ge> r_width ras then PyNone
      else PyFloat (py_round4 (convert_units (varname cfg) (r_read ras b r c))))"

fun add_bands :: "config \<Rightarrow> raster \<Rightarrow> int \<Rightarrow> int \<Rightarrow> nat list \<Rightarrow> nat \<Rightarrow> row \<Rightarrow> row" where
  "add_bands cfg ras r c [] ym v = v"
| "add_bands cfg ras r c (b # bs) ym v =
     add_bands cfg ras r c bs (ym + 1)
       (dict_set v (''YM-'' @ str_yearmonth ym) (cell_value cfg ras b r c))"

text \<open>A dictionary that holds the cell address \<open>(r, c)\<close> as the band loop reads it.\<close>

definition has_cell :: "row \<Rightarrow> int \<Rightarrow> int \<Rightarrow> bool" where
  "has_cell v r c \<longleftrightarrow>
     dict_get v ''RASTER_ROW'' = Some (PyInt r) \<and> dict_get v ''RASTER_COL'' = Some (PyInt c)"

text \<open>
  The column names of the point file are free. The properties of the match value need
  them not to look like a period key (\<open>YM-...\<close>), and the date column not to be
  overwritten by the row and column entries of the dictionary display.
\<close>

definition col_names_ok :: "config \<Rightarrow> bool" where
  "col_names_ok cfg \<longleftrightarrow>
     take 3 (obname cfg) \<noteq> ''YM-'' \<and> take 3 (obdate cfg) \<noteq> ''YM-''
     \<and> obdate cfg \<noteq> ''RASTER_ROW'' \<and> obdate cfg \<noteq> ''RASTER_COL''"

definition series :: "config \<Rightarrow> raster \<Rightarrow> nat \<Rightarrow> point \<Rightarrow> row" where
  "series cfg ras ym p =
     add_bands cfg ras (fst (r_index ras (p_x p) (p_y p))) (snd (r_index ras (p_x p) (p_y p)))
       [1 ..< r_count ras + 1] ym (base_row cfg ras p)"

definition matched :: "row \<Rightarrow> string \<Rightarrow> row" where
  "matched v k = dict_set v ''MATCH_VALUE'' (case dict_get v k of Some x \<Rightarrow> x | None \<Rightarrow> PyNone)"

subsection \<open>A small run\<close>

text \<open>
  The settings of the script as published, a raster of three bands on a grid of two rows
  and two columns, and three points: one inside the grid with a date in the sampled
  range, one outside the grid, one inside the grid with a date after the range.
\<close>

definition demo_cfg :: config where
  "demo_cfg = \<lparr>varname = ''temp'', obnum = ''OBS_NUM'', obname = ''OBS_NAME'',
     obdate = ''OBS_DATE'', startdate = ''2018-01'', standard_date = False\<rparr>"

definition demo_raster :: raster where
  "demo_raster = \<lparr>r_count = 3, r_height = 2, r_width = 2,
     r_index = (\<lambda>x y. (\<lfloor>y\<rfloor>, \<lfloor>x\<rfloor>)),
     r_read = (\<lambda>b r c. 280.15 + real b)\<rparr>"

definition demo_points :: "point list" where
  "demo_points =
     [\<lparr>p_id = PyInt 1, p_name = PyStr ''a'', p_date = PyStr ''02/15/2018'', p_x = 0, p_y = 1\<rparr>,
      \<lparr>p_id = PyInt 2, p_name = PyStr ''b'', p_date = PyStr '' 3/ 5/2019 '', p_x = 5, p_y = 1\<rparr>,
      \<lparr>p_id = PyInt 3, p_name = PyStr ''c'', p_date = PyStr ''03/15/2019'', p_x = 1, p_y = 0\<rparr>]"

text \<open>The same raster with fifteen bands, January 2018 to March 2019.\<close>

definition demo_raster15 :: raster where
  "demo_raster15 = demo_raster\<lparr>r_count := 15\<rparr>"

text \<open>A point file with the ID 1 twice, and one whose only date is hyphenated.\<close>

definition demo_env_dup :: env where
  "demo_env_dup = \<lparr>outfolder_exists = False,
     point_data =
       [\<lparr>p_id = PyInt 1, p_name = PyStr ''a'', p_date = PyStr ''02/15/2018'', p_x = 0, p_y = 1\<rparr>,
        \<lparr>p_id = PyInt 1, p_name = PyStr ''b'', p_date = PyStr ''03/15/2018'', p_x = 1, p_y = 1\<rparr>],
     raster_data = demo_raster, today = ''2026-01-21''\<rparr>"

definition demo_env_bad_date :: "int \<Rightarrow> env" where
  "demo_env_bad_date n = \<lparr>outfolder_exists = False,
     point_data =
       [\<lparr>p_id = PyInt n, p_name = PyStr ''a'', p_date = PyStr ''2019-03-15'', p_x = 0, p_y = 1\<rparr>],
     raster_data = demo_raster, today = ''2026-01-21''\<rparr>"

text \<open>The three points and the raster of three bands as the input of a run.\<close>

definition demo_env :: env where
  "demo_env = \<lparr>outfolder_exists = False, point_data = demo_points,
     raster_data = demo_raster, today = ''2026-01-21''\<rparr>"

section \<open>Properties\<close>

subsection \<open>Dictionaries are maps\<close>

lemma dict_get_set: "dict_get (dict_set d k v) k' = (if k' = k then Some v else dict_get d k')"
  by (induction d) auto

lemma dict_get_None_iff: "dict_get d k = None \<longleftrightarrow> k \<notin> fst ` set d"
  by (induction d) (force split: if_splits)+

lemma dict_set_new: "k \<notin> fst ` set d \<Longrightarrow> dict_set d k v = d @ [(k, v)]"
  by (induction d) auto

lemma dict_get_map:
  "inj_on f (set ps) \<Longrightarrow> p \<in> set ps \<Longrightarrow> dict_get (map (\<lambda>p. (f p, g p)) ps) (f p) = Some (g p)"
  by (induction ps) (auto simp: inj_on_def)

lemma for_items_map:
  "(\<And>p. p \<in> set ps \<Longrightarrow> f (g p) = Inr (h p)) \<Longrightarrow>
   for_items f (map (\<lambda>p. (i p, g p)) ps) = Inr (map (\<lambda>p. (i p, h p)) ps)"
  by (induction ps) auto

lemma for_items_fail:
  "\<forall>q\<in>set ps1. \<exists>w. f (g q) = Inr w \<Longrightarrow> f (g p) = Inl e \<Longrightarrow>
   for_items f (map (\<lambda>p. (i p, g p)) (ps1 @ p # ps2)) = Inl e"
  by (induction ps1) (auto split: sum.splits)

subsection \<open>The text of a number\<close>

lemma digit_val_digit_char: "d < 10 \<Longrightarrow> digit_val (digit_char d) = d"
proof -
  assume "d < 10"
  then have "d \<in> {0,1,2,3,4,5,6,7,8,9}" by auto
  then show ?thesis by (auto simp: digit_val_def digit_char_def)
qed

lemma read_nat_snoc: "read_nat (s @ [c]) = 10 * read_nat s + digit_val c"
  by (simp add: read_nat_def)

lemma read_nat_show_nat: "read_nat (show_nat n) = n"
proof (induction n rule: show_nat.induct)
  case (1 n)
  show ?case
  proof (cases "n < 10")
    case True
    then show ?thesis
      by (subst show_nat.simps) (simp add: read_nat_def digit_val_digit_char)
  next
    case False
    then have "read_nat (show_nat (n div 10)) = n div 10" using 1 by simp
    with False show ?thesis
      by (subst show_nat.simps) (simp add: read_nat_snoc digit_val_digit_char)
  qed
qed

lemma read_nat_zero: "read_nat (CHR ''0'' # s) = read_nat s"
  by (simp add: read_nat_def digit_val_def)

lemma read_nat_zeros: "read_nat (replicate k (CHR ''0'') @ s) = read_nat s"
  by (induction k) (simp_all add: read_nat_zero)

lemma read_nat_zero_pad: "read_nat (zero_pad w s) = read_nat s"
  by (simp add: zero_pad_def read_nat_zeros)

lemma length_show_nat_digit: "m < 10 \<Longrightarrow> length (show_nat m) = 1"
  by (subst show_nat.simps) simp

lemma length_show_nat_small: "m < 100 \<Longrightarrow> length (show_nat m) \<le> 2"
  by (subst show_nat.simps) (simp add: length_show_nat_digit)

lemma length_zero_pad2: "m < 100 \<Longrightarrow> length (zero_pad 2 (show_nat m)) = 2"
  using length_show_nat_small [of m] by (simp add: zero_pad_def)

lemma ym_text_inj:
  assumes "ym_text y m = ym_text y' m'" "m < 100" "m' < 100"
  shows "y = y' \<and> m = m'"
proof -
  have "zero_pad 4 (show_nat y) = zero_pad 4 (show_nat y') \<and>
        zero_pad 2 (show_nat m) = zero_pad 2 (show_nat m')"
    using assms length_zero_pad2 [of m] length_zero_pad2 [of m']
    by (simp add: ym_text_def)
  then have "read_nat (zero_pad 4 (show_nat y)) = read_nat (zero_pad 4 (show_nat y'))"
    "read_nat (zero_pad 2 (show_nat m)) = read_nat (zero_pad 2 (show_nat m'))"
    by simp_all
  then show ?thesis by (simp add: read_nat_zero_pad read_nat_show_nat)
qed

lemma str_yearmonth_inj: "str_yearmonth a = str_yearmonth b \<Longrightarrow> a = b"
proof -
  assume "str_yearmonth a = str_yearmonth b"
  then have "a div 12 = b div 12 \<and> a mod 12 + 1 = b mod 12 + 1"
    unfolding str_yearmonth_def by (rule ym_text_inj) simp_all
  then show "a = b" by (metis add_right_cancel div_mult_mod_eq)
qed


subsection \<open>Unit conversion\<close>

text \<open>
  C1. The conversion of a temperature should subtract 273.15, so that 273.15 Kelvin are
  0 degrees Celsius. The code subtracts 272.15: 273.15 Kelvin come out as 1 degree, and
  every temperature comes out one degree above the reference value \<open>raw - 273.15\<close>.
  Precipitation is multiplied by 1000 and a value of another kind is returned as it is.
\<close>

theorem convert_units_temp_one_degree_high:
  "convert_units ''temp'' 273.15 = 1
   \<and> convert_units ''temp'' raw = (raw - 273.15) + 1
   \<and> convert_units ''precip'' raw = raw * 1000
   \<and> convert_units ''precip'' 0.001 = 1
   \<and> convert_units ''wind'' raw = raw"
  by (simp add: convert_units_def)

subsection \<open>The dictionary after the two loops\<close>

lemma keys_dict_set: "fst ` set (dict_set d k v) = insert k (fst ` set d)"
  by (induction d k v rule: dict_set.induct) (simp_all add: insert_commute)

lemma locate_point_base: "locate_point cfg ras rd p = dict_set rd (p_id p) (base_row cfg ras p)"
  by (simp add: locate_point_def base_row_def split: prod.splits)

lemma foldl_locate_point:
  "distinct (map p_id ps) \<Longrightarrow> p_id ` set ps \<inter> fst ` set rd = {} \<Longrightarrow>
   foldl (locate_point cfg ras) rd ps = rd @ map (\<lambda>p. (p_id p, base_row cfg ras p)) ps"
proof (induction ps arbitrary: rd)
  case Nil
  then show ?case by simp
next
  case (Cons p ps)
  have new: "p_id p \<notin> fst ` set rd" using Cons.prems by auto
  have "p_id ` set ps \<inter> fst ` set (rd @ [(p_id p, base_row cfg ras p)]) = {}"
    using Cons.prems by auto
  with Cons show ?case by (simp add: locate_point_base dict_set_new [OF new])
qed

lemma locate_points_distinct:
  "distinct (map p_id ps) \<Longrightarrow>
   locate_points cfg ras ps = map (\<lambda>p. (p_id p, base_row cfg ras p)) ps"
  using foldl_locate_point [of ps "[]" cfg ras] by (simp add: locate_points_def)

lemma has_cell_base_row:
  "has_cell (base_row cfg ras p) (fst (r_index ras (p_x p) (p_y p))) (snd (r_index ras (p_x p) (p_y p)))"
  by (simp add: has_cell_def base_row_def dict_of_def dict_get_set)

lemma obdate_base_row:
  "col_names_ok cfg \<Longrightarrow> dict_get (base_row cfg ras p) (obdate cfg) = Some (p_date p)"
  by (simp add: col_names_ok_def base_row_def dict_of_def dict_get_set)

lemma keys_base_row:
  "fst ` set (base_row cfg ras p) = {obname cfg, obdate cfg, ''RASTER_ROW'', ''RASTER_COL''}"
  by (auto simp add: base_row_def dict_of_def keys_dict_set)

lemma sample_point_cell:
  "has_cell v r c \<Longrightarrow>
   sample_point cfg ras b ym v =
     Inr (dict_set v (''YM-'' @ str_yearmonth ym) (cell_value cfg ras b r c))"
  by (simp add: has_cell_def sample_point_def cell_value_def)

lemma has_cell_set_YM: "has_cell v r c \<Longrightarrow> has_cell (dict_set v (''YM-'' @ s) x) r c"
  by (simp add: has_cell_def dict_get_set)

lemma sample_bands_map:
  "\<forall>p\<in>set ps. has_cell (F p) (R p) (C p) \<Longrightarrow>
   sample_bands cfg ras bs ym (map (\<lambda>p. (p_id p, F p)) ps) =
     Inr (map (\<lambda>p. (p_id p, add_bands cfg ras (R p) (C p) bs ym (F p))) ps)"
proof (induction bs arbitrary: ym F)
  case Nil
  then show ?case by simp
next
  case (Cons b bs)
  let ?G = "\<lambda>p. dict_set (F p) (''YM-'' @ str_yearmonth ym) (cell_value cfg ras b (R p) (C p))"
  have step: "for_items (sample_point cfg ras b ym) (map (\<lambda>p. (p_id p, F p)) ps) =
      Inr (map (\<lambda>p. (p_id p, ?G p)) ps)"
  proof (intro for_items_map sample_point_cell)
    fix p assume "p \<in> set ps"
    then show "has_cell (F p) (R p) (C p)" using Cons.prems by blast
  qed
  have "\<forall>p\<in>set ps. has_cell (?G p) (R p) (C p)"
    using Cons.prems by (blast intro: has_cell_set_YM)
  from Cons.IH [OF this] step show ?case by simp
qed

lemma add_bands_other:
  "\<forall>i<length bs. k \<noteq> ''YM-'' @ str_yearmonth (ym + i) \<Longrightarrow>
   dict_get (add_bands cfg ras r c bs ym v) k = dict_get v k"
proof (induction bs arbitrary: ym v)
  case Nil
  then show ?case by simp
next
  case (Cons b bs)
  have "k \<noteq> ''YM-'' @ str_yearmonth ym" using Cons.prems by auto
  moreover have "\<forall>i<length bs. k \<noteq> ''YM-'' @ str_yearmonth (ym + 1 + i)"
    using Cons.prems by force
  ultimately show ?case using Cons.IH [of "ym + 1"] by (simp add: dict_get_set)
qed

lemma add_bands_label:
  "i < length bs \<Longrightarrow>
   dict_get (add_bands cfg ras r c bs ym v) (''YM-'' @ str_yearmonth (ym + i)) =
     Some (cell_value cfg ras (bs ! i) r c)"
proof (induction bs arbitrary: ym v i)
  case Nil
  then show ?case by simp
next
  case (Cons b bs)
  show ?case
  proof (cases i)
    case 0
    have "\<forall>j<length bs. ''YM-'' @ str_yearmonth ym \<noteq> ''YM-'' @ str_yearmonth (ym + 1 + j)"
      by (auto dest: str_yearmonth_inj)
    from add_bands_other [OF this] 0 show ?thesis by (simp add: dict_get_set)
  next
    case (Suc j)
    with Cons.prems have "j < length bs" by simp
    from Cons.IH [OF this, of "ym + 1"] Suc show ?thesis by simp
  qed
qed

lemma add_bands_keys:
  "\<forall>i<length bs. ''YM-'' @ str_yearmonth (ym + i) \<notin> fst ` set v \<Longrightarrow>
   map fst (add_bands cfg ras r c bs ym v) =
     map fst v @ map (\<lambda>i. ''YM-'' @ str_yearmonth (ym + i)) [0 ..< length bs]"
proof (induction bs arbitrary: ym v)
  case Nil
  then show ?case by simp
next
  case (Cons b bs)
  let ?k = "''YM-'' @ str_yearmonth ym"
  let ?v = "dict_set v ?k (cell_value cfg ras b r c)"
  have new: "?k \<notin> fst ` set v" using Cons.prems by force
  have "\<forall>i<length bs. ''YM-'' @ str_yearmonth (ym + 1 + i) \<notin> fst ` set ?v"
  proof (intro allI impI)
    fix i assume "i < length bs"
    then have "''YM-'' @ str_yearmonth (ym + Suc i) \<notin> fst ` set v" using Cons.prems by force
    moreover have "str_yearmonth (ym + Suc i) \<noteq> str_yearmonth ym"
      by (auto dest: str_yearmonth_inj)
    ultimately show "''YM-'' @ str_yearmonth (ym + 1 + i) \<notin> fst ` set ?v"
      by (simp add: keys_dict_set)
  qed
  from Cons.IH [OF this] dict_set_new [OF new, of "cell_value cfg ras b r c"]
  have "map fst (add_bands cfg ras r c (b # bs) ym v) =
        map fst v @ ?k # map (\<lambda>i. ''YM-'' @ str_yearmonth (ym + 1 + i)) [0 ..< length bs]"
    by simp
  also have "?k # map (\<lambda>i. ''YM-'' @ str_yearmonth (ym + 1 + i)) [0 ..< length bs] =
        map (\<lambda>i. ''YM-'' @ str_yearmonth (ym + i)) [0 ..< length (b # bs)]"
    by (simp add: upt_conv_Cons map_Suc_upt [symmetric] del: upt_Suc)
  finally show ?case .
qed

lemma sampling_rows:
  "distinct (map p_id ps) \<Longrightarrow>
   sampling cfg ras ym ps =
     Inr (map (\<lambda>p. (p_id p, add_bands cfg ras (fst (r_index ras (p_x p) (p_y p)))
            (snd (r_index ras (p_x p) (p_y p))) [1 ..< r_count ras + 1] ym (base_row cfg ras p))) ps)"
  unfolding sampling_def
  by (simp only: locate_points_distinct) (rule sample_bands_map, simp add: has_cell_base_row)

lemma sampling_series:
  "distinct (map p_id ps) \<Longrightarrow>
   sampling cfg ras ym ps = Inr (map (\<lambda>p. (p_id p, series cfg ras ym p)) ps)"
  by (simp add: sampling_rows series_def)

lemma series_label:
  "i < r_count ras \<Longrightarrow>
   dict_get (series cfg ras ym p) (''YM-'' @ str_yearmonth (ym + i)) =
     Some (cell_value cfg ras (i + 1) (fst (r_index ras (p_x p) (p_y p)))
             (snd (r_index ras (p_x p) (p_y p))))"
  unfolding series_def
  using add_bands_label [of i "[1 ..< r_count ras + 1]" cfg ras _ _ ym "base_row cfg ras p"]
  by (simp del: upt_Suc)

lemma series_other:
  "\<forall>i<r_count ras. k \<noteq> ''YM-'' @ str_yearmonth (ym + i) \<Longrightarrow>
   dict_get (series cfg ras ym p) k = dict_get (base_row cfg ras p) k"
  unfolding series_def by (rule add_bands_other) simp

lemma not_YM: "take 3 x \<noteq> ''YM-'' \<Longrightarrow> ''YM-'' @ s \<noteq> x"
  by auto

lemma base_row_no_YM:
  "col_names_ok cfg \<Longrightarrow> dict_get (base_row cfg ras p) (''YM-'' @ s) = None"
proof -
  assume "col_names_ok cfg"
  then have a: "take 3 (obname cfg) \<noteq> ''YM-''" and b: "take 3 (obdate cfg) \<noteq> ''YM-''"
    by (simp_all add: col_names_ok_def)
  from not_YM [OF a, of s] not_YM [OF b, of s] show ?thesis
    by (simp add: dict_get_None_iff keys_base_row)
qed

lemma series_obdate:
  "col_names_ok cfg \<Longrightarrow> dict_get (series cfg ras ym p) (obdate cfg) = Some (p_date p)"
proof -
  assume ok: "col_names_ok cfg"
  then have "\<forall>i<r_count ras. obdate cfg \<noteq> ''YM-'' @ str_yearmonth (ym + i)"
    by (auto simp: col_names_ok_def)
  from series_other [OF this] ok show ?thesis by (simp add: obdate_base_row)
qed

lemma resolve_date_prefix: "resolve_date cfg raw = Inr k \<Longrightarrow> \<exists>s. k = ''YM-'' @ s"
  by (auto simp: resolve_date_def split: sum.splits if_splits)

lemma match_point_series:
  "col_names_ok cfg \<Longrightarrow> resolve_date cfg (p_date p) = Inr k \<Longrightarrow>
   match_point cfg (series cfg ras ym p) = Inr (matched (series cfg ras ym p) k)"
  by (simp add: match_point_def series_obdate matched_def)

lemma extraction_rows:
  assumes "distinct (map p_id ps)" "col_names_ok cfg"
    and "\<forall>p\<in>set ps. resolve_date cfg (p_date p) = Inr (K p)"
  shows "extraction cfg ras ym ps =
           Inr (map (\<lambda>p. (p_id p, matched (series cfg ras ym p) (K p))) ps)"
proof -
  have "for_items (match_point cfg) (map (\<lambda>p. (p_id p, series cfg ras ym p)) ps) =
        Inr (map (\<lambda>p. (p_id p, matched (series cfg ras ym p) (K p))) ps)"
    using assms by (intro for_items_map match_point_series) auto
  then show ?thesis by (simp add: extraction_def sampling_series [OF assms(1)])
qed

lemma matched_label:
  "dict_get (matched v k) (''YM-'' @ s) = dict_get v (''YM-'' @ s)"
  by (simp add: matched_def dict_get_set)

lemma matched_value:
  "dict_get (matched v k) ''MATCH_VALUE'' =
     Some (case dict_get v k of Some x \<Rightarrow> x | None \<Rightarrow> PyNone)"
  by (simp add: matched_def dict_get_set)

lemma series_not_label:
  assumes "col_names_ok cfg" "\<forall>i<r_count ras. s \<noteq> str_yearmonth (ym + i)"
  shows "dict_get (series cfg ras ym p) (''YM-'' @ s) = None"
proof -
  from assms(2) have "\<forall>i<r_count ras. ''YM-'' @ s \<noteq> ''YM-'' @ str_yearmonth (ym + i)" by auto
  from series_other [OF this] base_row_no_YM [OF assms(1), of ras p s] show ?thesis by simp
qed

lemma choose_keys:
  "\<forall>q\<in>set ps. \<exists>k. resolve_date cfg (p_date q) = Inr k \<Longrightarrow>
   \<exists>K. \<forall>q\<in>set ps. resolve_date cfg (p_date q) = Inr (K q)"
  by metis

lemma dict_get_rows:
  "distinct (map p_id ps) \<Longrightarrow> p \<in> set ps \<Longrightarrow>
   dict_get (map (\<lambda>p. (p_id p, g p)) ps) (p_id p) = Some (g p)"
  by (rule dict_get_map) (simp_all add: distinct_map)

subsection \<open>Points outside the grid\<close>

lemma cell_value_outside:
  "r < 0 \<or> r \<ge> r_height ras \<or> c < 0 \<or> c \<ge> r_width ras \<Longrightarrow> cell_value cfg ras b r c = PyNone"
  by (simp add: cell_value_def)

lemma for_items_get:
  "for_items f d = Inr d' \<Longrightarrow> dict_get d k = Some v \<Longrightarrow>
   \<exists>v'. dict_get d' k = Some v' \<and> f v = Inr v'"
proof (induction d arbitrary: d')
  case Nil
  then show ?case by simp
next
  case (Cons a d)
  obtain k0 v0 where a: "a = (k0, v0)" by (cases a)
  from Cons.prems(1) a obtain w d0 where w: "f v0 = Inr w" "for_items f d = Inr d0" "d' = (k0, w) # d0"
    by (auto split: sum.splits)
  show ?case
  proof (cases "k0 = k")
    case True
    with Cons.prems(2) a w show ?thesis by simp
  next
    case False
    with Cons.prems(2) a have "dict_get d k = Some v" by simp
    from Cons.IH [OF w(2) this] False w(3) show ?thesis by simp
  qed
qed

lemma match_point_keeps:
  "match_point cfg v = Inr v' \<Longrightarrow> dict_get v' (''YM-'' @ s) = dict_get v (''YM-'' @ s)"
  by (auto simp: match_point_def dict_get_set split: option.splits sum.splits)

text \<open>
  C4. A point whose cell address is outside the grid has the value \<open>None\<close> under
  every period label and \<open>None\<close> as its match value, whatever its observation date
  is, as long as the dates of the run can be resolved (otherwise the run stops with an
  exception). The column names are assumed not to collide with the period keys.
\<close>

theorem out_of_grid_point_all_null:
  assumes "distinct (map p_id ps)" and "col_names_ok cfg"
    and "\<forall>q\<in>set ps. \<exists>k. resolve_date cfg (p_date q) = Inr k"
    and "p \<in> set ps" and "r_index ras (p_x p) (p_y p) = (rrow, rcol)"
    and "rrow < 0 \<or> rrow \<ge> r_height ras \<or> rcol < 0 \<or> rcol \<ge> r_width ras"
  shows "\<exists>rd v. extraction cfg ras ym ps = Inr rd \<and> dict_get rd (p_id p) = Some v
           \<and> (\<forall>i<r_count ras. dict_get v (''YM-'' @ str_yearmonth (ym + i)) = Some PyNone)
           \<and> dict_get v ''MATCH_VALUE'' = Some PyNone"
proof -
  from assms(3) obtain K where K: "\<forall>q\<in>set ps. resolve_date cfg (p_date q) = Inr (K q)"
    using choose_keys by blast
  let ?s = "series cfg ras ym p"
  let ?rd = "map (\<lambda>p. (p_id p, matched (series cfg ras ym p) (K p))) ps"
  have ex: "extraction cfg ras ym ps = Inr ?rd"
    by (rule extraction_rows [OF assms(1,2) K])
  have get: "dict_get ?rd (p_id p) = Some (matched ?s (K p))"
    by (rule dict_get_rows [OF assms(1,4)])
  have none: "cell_value cfg ras b (fst (r_index ras (p_x p) (p_y p)))
      (snd (r_index ras (p_x p) (p_y p))) = PyNone" for b
    using assms(5,6) by (simp add: cell_value_outside)
  have labels: "\<forall>i<r_count ras.
      dict_get (matched ?s (K p)) (''YM-'' @ str_yearmonth (ym + i)) = Some PyNone"
    using series_label [of _ ras cfg ym p] none by (simp only: matched_label) simp
  from K assms(4) obtain s where s: "K p = ''YM-'' @ s"
    using resolve_date_prefix by blast
  have "dict_get ?s (K p) = Some PyNone \<or> dict_get ?s (K p) = None"
  proof (cases "\<exists>i<r_count ras. s = str_yearmonth (ym + i)")
    case True
    then obtain i where "i < r_count ras" "s = str_yearmonth (ym + i)" by blast
    with series_label [of i ras cfg ym p] none s show ?thesis by simp
  next
    case False
    then have "\<forall>i<r_count ras. s \<noteq> str_yearmonth (ym + i)" by blast
    from series_not_label [OF assms(2) this, of p] s show ?thesis by simp
  qed
  then have "dict_get (matched ?s (K p)) ''MATCH_VALUE'' = Some PyNone"
    by (auto simp: matched_value)
  with ex get labels show ?thesis by blast
qed

theorem out_of_grid_point_all_null_witness:
  "\<exists>rd v. extraction demo_cfg demo_raster 24216 demo_points = Inr rd
     \<and> dict_get rd (PyInt 2) = Some v
     \<and> dict_get v ''YM-2018-01'' = Some PyNone
     \<and> dict_get v ''YM-2018-02'' = Some PyNone
     \<and> dict_get v ''YM-2018-03'' = Some PyNone
     \<and> dict_get v ''MATCH_VALUE'' = Some PyNone"
proof -
  let ?p = "\<lparr>p_id = PyInt 2, p_name = PyStr ''b'', p_date = PyStr '' 3/ 5/2019 '', p_x = 5, p_y = 1\<rparr>"
  have 1: "distinct (map p_id demo_points)" by (simp add: demo_points_def)
  have 2: "col_names_ok demo_cfg" by (simp add: col_names_ok_def demo_cfg_def)
  have 3: "\<forall>q\<in>set demo_points. \<exists>k. resolve_date demo_cfg (p_date q) = Inr k"
    by (simp add: demo_points_def demo_cfg_def resolve_date_def strptime_mdY_def split_slash_def
        month_re_def day_re_def is_digit_def py_int_def strip_def py_isspace_def read_nat_def
        digit_val_def days_in_month_def is_leap_def datetime_as_string_M_def)
  have 4: "?p \<in> set demo_points" by (simp add: demo_points_def)
  have 5: "r_index demo_raster (p_x ?p) (p_y ?p) = (1, 5)" by (simp add: demo_raster_def)
  have 6: "(1::int) < 0 \<or> 1 \<ge> r_height demo_raster \<or> (5::int) < 0 \<or> 5 \<ge> r_width demo_raster"
    by (simp add: demo_raster_def)
  from out_of_grid_point_all_null [OF 1 2 3 4 5 6, of 24216]
  obtain rd v where r: "extraction demo_cfg demo_raster 24216 demo_points = Inr rd"
    "dict_get rd (p_id ?p) = Some v"
    "\<forall>i<r_count demo_raster. dict_get v (''YM-'' @ str_yearmonth (24216 + i)) = Some PyNone"
    "dict_get v ''MATCH_VALUE'' = Some PyNone" by blast
  have n: "(0::nat) < r_count demo_raster" "(1::nat) < r_count demo_raster"
    "(2::nat) < r_count demo_raster" by (simp_all add: demo_raster_def)
  have t: "str_yearmonth (24216 + 0) = ''2018-01''" "str_yearmonth (24216 + 1) = ''2018-02''"
    "str_yearmonth (24216 + 2) = ''2018-03''"
    by (simp_all add: str_yearmonth_def ym_text_def zero_pad_def show_nat.simps digit_char_def)
  from r(3) n have "dict_get v (''YM-'' @ str_yearmonth (24216 + 0)) = Some PyNone"
    "dict_get v (''YM-'' @ str_yearmonth (24216 + 1)) = Some PyNone"
    "dict_get v (''YM-'' @ str_yearmonth (24216 + 2)) = Some PyNone" by blast+
  with t have "dict_get v ''YM-2018-01'' = Some PyNone" "dict_get v ''YM-2018-02'' = Some PyNone"
    "dict_get v ''YM-2018-03'' = Some PyNone" by simp_all
  with r(1,2,4) show ?thesis by auto
qed

subsection \<open>Dates outside the sampled range\<close>

lemma np_datetime64_2018_01: "np_datetime64 ''2018-01'' = Inr 24216"
  by (simp add: np_datetime64_def is_digit_def read_nat_def digit_val_def)

lemma demo_dates_resolve:
  "\<forall>q\<in>set demo_points. \<exists>k. resolve_date demo_cfg (p_date q) = Inr k"
  by (simp add: demo_points_def demo_cfg_def resolve_date_def strptime_mdY_def split_slash_def
      month_re_def day_re_def is_digit_def py_int_def strip_def py_isspace_def read_nat_def
      digit_val_def days_in_month_def is_leap_def datetime_as_string_M_def)

lemma demo_labels:
  "str_yearmonth (24216 + 0) = ''2018-01''" "str_yearmonth (24216 + 1) = ''2018-02''"
  "str_yearmonth (24216 + 2) = ''2018-03''"
  by (simp_all add: str_yearmonth_def ym_text_def zero_pad_def show_nat.simps digit_char_def)

lemma main_completes:
  assumes "np_datetime64 (startdate cfg) = Inr ym" and "varname cfg \<in> {''temp'', ''precip''}"
    and "distinct (map p_id (point_data ev))"
    and "extraction cfg (raster_data ev) ym (point_data ev) = Inr rd" and "rd \<noteq> []"
  shows "snd (main cfg ev) = Completed"
proof -
  from assms(5) obtain k0 v0 rest where "rd = (k0, v0) # rest" by (cases rd) auto
  then have "\<exists>rows. result_rows cfg rd = Inr rows" by (simp add: result_rows_def)
  then obtain rows where "result_rows cfg rd = Inr rows" by blast
  with assms(1-4) show ?thesis by (auto simp: main_def Let_def)
qed

text \<open>
  C6. When the key of a point's observation date is none of the sampled period keys, the
  match value is \<open>None\<close>, the point still has its value under every period key, and
  the run goes on to its end. The dates of the run are assumed to resolve and the column
  names not to collide with the period keys.
\<close>

theorem date_out_of_range_match_null:
  assumes "np_datetime64 (startdate cfg) = Inr ym" and "varname cfg \<in> {''temp'', ''precip''}"
    and "distinct (map p_id (point_data ev))" and "col_names_ok cfg"
    and "\<forall>q\<in>set (point_data ev). \<exists>k. resolve_date cfg (p_date q) = Inr k"
    and "p \<in> set (point_data ev)" and "resolve_date cfg (p_date p) = Inr k"
    and "\<forall>i<r_count (raster_data ev). k \<noteq> ''YM-'' @ str_yearmonth (ym + i)"
    and "r_index (raster_data ev) (p_x p) (p_y p) = (rrow, rcol)"
  shows "\<exists>rd v. extraction cfg (raster_data ev) ym (point_data ev) = Inr rd
           \<and> dict_get rd (p_id p) = Some v
           \<and> dict_get v ''MATCH_VALUE'' = Some PyNone
           \<and> (\<forall>i<r_count (raster_data ev). dict_get v (''YM-'' @ str_yearmonth (ym + i)) =
                 Some (if rrow < 0 \<or> rrow \<ge> r_height (raster_data ev)
                          \<or> rcol < 0 \<or> rcol \<ge> r_width (raster_data ev)
                       then PyNone
                       else PyFloat (py_round4 (convert_units (varname cfg)
                                       (r_read (raster_data ev) (i + 1) rrow rcol)))))
           \<and> snd (main cfg ev) = Completed"
proof -
  let ?ps = "point_data ev" and ?ras = "raster_data ev"
  from assms(5) obtain K where K: "\<forall>q\<in>set ?ps. resolve_date cfg (p_date q) = Inr (K q)"
    using choose_keys by blast
  with assms(6,7) have Kp: "K p = k" by auto
  let ?s = "series cfg ?ras ym p"
  let ?rd = "map (\<lambda>p. (p_id p, matched (series cfg ?ras ym p) (K p))) ?ps"
  have ex: "extraction cfg ?ras ym ?ps = Inr ?rd"
    by (rule extraction_rows [OF assms(3,4) K])
  have get: "dict_get ?rd (p_id p) = Some (matched ?s k)"
    using dict_get_rows [OF assms(3,6), of "\<lambda>p. matched (series cfg ?ras ym p) (K p)"] Kp
    by simp
  from assms(7) obtain s where s: "k = ''YM-'' @ s"
    using resolve_date_prefix by blast
  with assms(8) have "\<forall>i<r_count ?ras. s \<noteq> str_yearmonth (ym + i)" by auto
  from series_not_label [OF assms(4) this, of p] s
  have "dict_get (matched ?s k) ''MATCH_VALUE'' = Some PyNone"
    by (simp add: matched_value)
  moreover have "\<forall>i<r_count ?ras. dict_get (matched ?s k) (''YM-'' @ str_yearmonth (ym + i)) =
      Some (if rrow < 0 \<or> rrow \<ge> r_height ?ras \<or> rcol < 0 \<or> rcol \<ge> r_width ?ras then PyNone
            else PyFloat (py_round4 (convert_units (varname cfg) (r_read ?ras (i + 1) rrow rcol))))"
    using series_label [of _ ?ras cfg ym p] assms(9)
    by (simp only: matched_label) (simp add: cell_value_def)
  moreover have "?rd \<noteq> []" using assms(6) by auto
  from main_completes [OF assms(1,2,3) ex this] have "snd (main cfg ev) = Completed" .
  ultimately show ?thesis using ex get by blast
qed

theorem date_out_of_range_match_null_witness:
  "\<exists>rd v. extraction demo_cfg demo_raster 24216 demo_points = Inr rd
     \<and> dict_get rd (PyInt 3) = Some v
     \<and> dict_get v ''MATCH_VALUE'' = Some PyNone
     \<and> dict_get v ''YM-2018-01'' = Some (PyFloat 9)
     \<and> dict_get v ''YM-2018-02'' = Some (PyFloat 10)
     \<and> dict_get v ''YM-2018-03'' = Some (PyFloat 11)
     \<and> snd (main demo_cfg demo_env) = Completed"
proof -
  let ?p = "\<lparr>p_id = PyInt 3, p_name = PyStr ''c'', p_date = PyStr ''03/15/2019'', p_x = 1, p_y = 0\<rparr>"
  have e: "point_data demo_env = demo_points" "raster_data demo_env = demo_raster"
    by (simp_all add: demo_env_def)
  have 0: "np_datetime64 (startdate demo_cfg) = Inr 24216"
    "varname demo_cfg \<in> {''temp'', ''precip''}"
    by (simp_all add: demo_cfg_def np_datetime64_2018_01)
  have 1: "distinct (map p_id (point_data demo_env))" by (simp add: e demo_points_def)
  have 2: "col_names_ok demo_cfg" by (simp add: col_names_ok_def demo_cfg_def)
  have 3: "\<forall>q\<in>set (point_data demo_env). \<exists>k. resolve_date demo_cfg (p_date q) = Inr k"
    unfolding e by (rule demo_dates_resolve)
  have 4: "?p \<in> set (point_data demo_env)" by (simp add: e demo_points_def)
  have 5: "resolve_date demo_cfg (p_date ?p) = Inr ''YM-2019-03''"
    by (simp add: demo_cfg_def resolve_date_def strptime_mdY_def split_slash_def
      month_re_def day_re_def is_digit_def py_int_def strip_def py_isspace_def read_nat_def
      digit_val_def days_in_month_def is_leap_def datetime_as_string_M_def
      ym_text_def zero_pad_def show_nat.simps digit_char_def)
  have n: "i < r_count demo_raster \<longleftrightarrow> i = 0 \<or> i = 1 \<or> i = 2" for i
    by (auto simp: demo_raster_def)
  have 6: "\<forall>i<r_count (raster_data demo_env).
      ''YM-2019-03'' \<noteq> ''YM-'' @ str_yearmonth (24216 + i)"
    unfolding e using demo_labels by (auto simp: n)
  have 7: "r_index (raster_data demo_env) (p_x ?p) (p_y ?p) = (0, 1)"
    by (simp add: e demo_raster_def)
  from date_out_of_range_match_null [OF 0 1 2 3 4 5 6 7, unfolded e]
  obtain rd v where r: "extraction demo_cfg demo_raster 24216 demo_points = Inr rd"
    "dict_get rd (p_id ?p) = Some v" "dict_get v ''MATCH_VALUE'' = Some PyNone"
    "\<forall>i<r_count demo_raster. dict_get v (''YM-'' @ str_yearmonth (24216 + i)) =
       Some (if (0::int) < 0 \<or> 0 \<ge> r_height demo_raster \<or> (1::int) < 0 \<or> 1 \<ge> r_width demo_raster
             then PyNone
             else PyFloat (py_round4 (convert_units (varname demo_cfg)
                             (r_read demo_raster (i + 1) 0 1))))"
    "snd (main demo_cfg demo_env) = Completed" by blast
  have "dict_get v (''YM-'' @ str_yearmonth (24216 + 0)) = Some (PyFloat 9)"
    "dict_get v (''YM-'' @ str_yearmonth (24216 + 1)) = Some (PyFloat 10)"
    "dict_get v (''YM-'' @ str_yearmonth (24216 + 2)) = Some (PyFloat 11)"
    using r(4) [rule_format, of 0] r(4) [rule_format, of 1] r(4) [rule_format, of 2]
    by (simp_all add: demo_raster_def demo_cfg_def py_round4_def convert_units_def
        round_half_even_def)
  with demo_labels have "dict_get v ''YM-2018-01'' = Some (PyFloat 9)"
    "dict_get v ''YM-2018-02'' = Some (PyFloat 10)"
    "dict_get v ''YM-2018-03'' = Some (PyFloat 11)" by simp_all
  with r(1,2,3,5) show ?thesis by auto
qed

subsection \<open>Rounding to four decimals\<close>

text \<open>
  \<open>py_round4\<close> gives the multiple of \<open>10\<^sup>-\<^sup>4\<close> nearest to its argument, a tie going to the
  even multiple. It rounds the exact real: Python rounds the exact value of a float and
  stores the float nearest to the result, after a subtraction or multiplication that was
  itself rounded to a float, so a stored float can differ from the value here in the
  fourth decimal when the float error crosses a tie.
\<close>

lemma round_half_even_near: "\<bar>of_int (round_half_even y) - y\<bar> \<le> 1 / 2"
proof -
  have "of_int \<lfloor>y\<rfloor> \<le> y" "y < of_int \<lfloor>y\<rfloor> + 1" by linarith+
  then show ?thesis by (auto simp: round_half_even_def Let_def)
qed

lemma py_round4_near: "\<bar>py_round4 x - x\<bar> \<le> 1 / 20000"
proof -
  define k :: real where "k = of_int (round_half_even (x * 10000))"
  have "\<bar>k - x * 10000\<bar> \<le> 1 / 2" unfolding k_def by (rule round_half_even_near)
  then have "\<bar>k / 10000 - x\<bar> \<le> 1 / 20000" by linarith
  then show ?thesis by (simp add: py_round4_def k_def)
qed

lemma py_round4_grid: "\<exists>k::int. py_round4 x = of_int k / 10000"
  by (auto simp: py_round4_def)

lemma py_round4_examples:
  "py_round4 1.23456 = 1.2346" "py_round4 0.00015 = 0.0002" "py_round4 0.00025 = 0.0002"
  "py_round4 (- 0.00015) = - 0.0002" "py_round4 9 = 9"
  by (simp_all add: py_round4_def round_half_even_def)

subsection \<open>Period labels\<close>

lemma str_yearmonth_from_2018:
  "str_yearmonth (24216 + i) = ym_text (2018 + i div 12) (i mod 12 + 1)"
proof -
  have e: "24216 + i = i + 2018 * 12" by simp
  have "(24216 + i) div 12 = 2018 + i div 12"
    unfolding e using div_mult_self1 [of 12 i 2018] by simp
  moreover have "(24216 + i) mod 12 = i mod 12"
    unfolding e using mod_mult_self1 [of i 2018 12] by simp
  ultimately show ?thesis by (simp add: str_yearmonth_def)
qed

lemma series_keys:
  assumes "col_names_ok cfg"
  shows "map fst (series cfg ras ym p) =
     map fst (base_row cfg ras p) @
     map (\<lambda>i. ''YM-'' @ str_yearmonth (ym + i)) [0 ..< r_count ras]"
proof -
  have "\<forall>i<length [1 ..< r_count ras + 1].
      ''YM-'' @ str_yearmonth (ym + i) \<notin> fst ` set (base_row cfg ras p)"
    using base_row_no_YM [OF assms, of ras p] by (simp add: dict_get_None_iff)
  from add_bands_keys [OF this] show ?thesis by (simp add: series_def)
qed

lemma base_row_keys_no_YM:
  assumes "col_names_ok cfg"
  shows "filter (\<lambda>k. take 3 k = ''YM-'') (map fst (base_row cfg ras p)) = []"
proof -
  have "\<forall>k \<in> fst ` set (base_row cfg ras p). take 3 k \<noteq> ''YM-''"
    using assms by (simp add: keys_base_row col_names_ok_def)
  then show ?thesis by (auto simp: filter_empty_conv)
qed

text \<open>
  C7. With the start date \<open>2018-01\<close> and a raster of \<open>N\<close> bands, the period keys of a
  point's dictionary after the loop over the bands are, in this order, \<open>YM-\<close> followed by
  the text of the month \<open>i\<close> months after January 2018, for \<open>i = 0, ..., N - 1\<close>: one per
  band, each one month after the one before, and no two of them equal.
\<close>

theorem period_labels_from_2018_01:
  assumes "distinct (map p_id ps)" and "col_names_ok cfg" and "p \<in> set ps"
  shows "np_datetime64 ''2018-01'' = Inr 24216
     \<and> (\<exists>rd v. sampling cfg ras 24216 ps = Inr rd \<and> dict_get rd (p_id p) = Some v
           \<and> filter (\<lambda>k. take 3 k = ''YM-'') (map fst v) =
               map (\<lambda>i. ''YM-'' @ ym_text (2018 + i div 12) (i mod 12 + 1)) [0 ..< r_count ras])
     \<and> distinct (map (\<lambda>i. ym_text (2018 + i div 12) (i mod 12 + 1)) [0 ..< r_count ras])"
proof -
  let ?rd = "map (\<lambda>p. (p_id p, series cfg ras 24216 p)) ps"
  have sa: "sampling cfg ras 24216 ps = Inr ?rd" by (rule sampling_series [OF assms(1)])
  have get: "dict_get ?rd (p_id p) = Some (series cfg ras 24216 p)"
    by (rule dict_get_rows [OF assms(1,3)])
  have "filter (\<lambda>k. take 3 k = ''YM-'')
         (map (\<lambda>i. ''YM-'' @ str_yearmonth (24216 + i)) [0 ..< r_count ras]) =
      map (\<lambda>i. ''YM-'' @ str_yearmonth (24216 + i)) [0 ..< r_count ras]"
    by (simp add: filter_map comp_def)
  then have "filter (\<lambda>k. take 3 k = ''YM-'') (map fst (series cfg ras 24216 p)) =
      map (\<lambda>i. ''YM-'' @ str_yearmonth (24216 + i)) [0 ..< r_count ras]"
    by (simp only: series_keys [OF assms(2)] filter_append
        base_row_keys_no_YM [OF assms(2)] append_Nil)
  then have keys: "filter (\<lambda>k. take 3 k = ''YM-'') (map fst (series cfg ras 24216 p)) =
      map (\<lambda>i. ''YM-'' @ ym_text (2018 + i div 12) (i mod 12 + 1)) [0 ..< r_count ras]"
    by (simp only: str_yearmonth_from_2018)
  have "inj_on (\<lambda>i. str_yearmonth (24216 + i)) (set [0 ..< r_count ras])"
    by (auto simp: inj_on_def dest: str_yearmonth_inj)
  then have "distinct (map (\<lambda>i. str_yearmonth (24216 + i)) [0 ..< r_count ras])"
    by (simp add: distinct_map)
  then have "distinct (map (\<lambda>i. ym_text (2018 + i div 12) (i mod 12 + 1)) [0 ..< r_count ras])"
    by (simp only: str_yearmonth_from_2018)
  with np_datetime64_2018_01 sa get keys show ?thesis by blast
qed

theorem period_labels_from_2018_01_witness:
  "\<exists>rd v. sampling demo_cfg demo_raster 24216 demo_points = Inr rd
     \<and> dict_get rd (PyInt 1) = Some v
     \<and> filter (\<lambda>k. take 3 k = ''YM-'') (map fst v) = [''YM-2018-01'', ''YM-2018-02'', ''YM-2018-03'']
     \<and> distinct [''2018-01'', ''2018-02'', ''2018-03'']"
proof -
  let ?p = "\<lparr>p_id = PyInt 1, p_name = PyStr ''a'', p_date = PyStr ''02/15/2018'', p_x = 0, p_y = 1\<rparr>"
  have 1: "distinct (map p_id demo_points)" by (simp add: demo_points_def)
  have 2: "col_names_ok demo_cfg" by (simp add: col_names_ok_def demo_cfg_def)
  have 3: "?p \<in> set demo_points" by (simp add: demo_points_def)
  have n: "[0 ..< r_count demo_raster] = [0, 1, 2]" by (simp add: demo_raster_def upt_rec)
  have l: "map (\<lambda>i. ''YM-'' @ ym_text (2018 + i div 12) (i mod 12 + 1)) [0, 1, 2] =
      [''YM-2018-01'', ''YM-2018-02'', ''YM-2018-03'']"
    "map (\<lambda>i. ym_text (2018 + i div 12) (i mod 12 + 1)) [0, 1, 2] =
      [''2018-01'', ''2018-02'', ''2018-03'']"
    by (simp_all add: ym_text_def zero_pad_def show_nat.simps digit_char_def)
  from period_labels_from_2018_01 [OF 1 2 3, of demo_raster]
  show ?thesis unfolding n l by auto
qed

subsection \<open>Month, day, year\<close>

lemma is_digit_digit_char: "d < 10 \<Longrightarrow> is_digit (digit_char d)"
proof -
  assume "d < 10"
  then have "d \<in> {0,1,2,3,4,5,6,7,8,9}" by auto
  then show ?thesis by (auto simp: is_digit_def digit_char_def)
qed

lemma show_nat_digits: "list_all is_digit (show_nat n)"
proof (induction n rule: show_nat.induct)
  case (1 n)
  show ?case
  proof (cases "n < 10")
    case True
    then show ?thesis by (subst show_nat.simps) (simp add: is_digit_digit_char)
  next
    case False
    with 1 have "list_all is_digit (show_nat (n div 10))" by simp
    with False show ?thesis by (subst show_nat.simps) (simp add: is_digit_digit_char)
  qed
qed

lemma zero_pad_digits: "list_all is_digit s \<Longrightarrow> list_all is_digit (zero_pad w s)"
proof -
  assume a: "list_all is_digit s"
  have z: "is_digit (CHR ''0'')" by (simp add: is_digit_def)
  show ?thesis unfolding zero_pad_def using a z by (auto simp: list_all_iff)
qed

lemma digit_not_space: "is_digit c \<Longrightarrow> \<not> py_isspace c"
  by (auto simp: is_digit_def py_isspace_def)

lemma digit_not_slash: "is_digit c \<Longrightarrow> c \<noteq> CHR ''/''"
  by (auto simp: is_digit_def)

lemma strip_no_blank: "\<forall>c\<in>set s. \<not> py_isspace c \<Longrightarrow> strip s = s"
proof -
  assume a: "\<forall>c\<in>set s. \<not> py_isspace c"
  have 1: "dropWhile py_isspace s = s"
    using a by (cases s) auto
  have "rev s = [] \<or> \<not> py_isspace (hd (rev s))"
    using a by (cases "s = []") (auto simp: hd_rev)
  then have "dropWhile py_isspace (rev s) = rev s"
    by (simp add: dropWhile_eq_self_iff)
  with 1 show ?thesis by (simp add: strip_def)
qed

lemma py_int_digits: "list_all is_digit t \<Longrightarrow> py_int t = read_nat t"
  by (simp add: py_int_def strip_no_blank digit_not_space list_all_iff)

lemma split_slash_append:
  "CHR ''/'' \<notin> set a \<Longrightarrow> split_slash (a @ CHR ''/'' # r) = Some (a, r)"
proof -
  assume a: "CHR ''/'' \<notin> set a"
  have "takeWhile (\<lambda>c. c \<noteq> CHR ''/'') (a @ CHR ''/'' # r) = a"
    using a by (induction a) auto
  moreover have "dropWhile (\<lambda>c. c \<noteq> CHR ''/'') (a @ CHR ''/'' # r) = CHR ''/'' # r"
    using a by (induction a) auto
  ultimately show ?thesis by (simp add: split_slash_def)
qed

lemma length_show_nat_4: "y < 10000 \<Longrightarrow> length (show_nat y) \<le> 4"
proof -
  assume y: "y < 10000"
  have 3: "length (show_nat z) \<le> 3" if "z < 1000" for z
    using that length_show_nat_small [of "z div 10"]
    by (subst show_nat.simps) auto
  show ?thesis using y 3 [of "y div 10"] by (subst show_nat.simps) auto
qed

lemma show_nat_1: "d < 10 \<Longrightarrow> show_nat d = [digit_char d]"
  by (subst show_nat.simps) simp

lemma show_nat_2:
  "10 \<le> d \<Longrightarrow> d < 100 \<Longrightarrow> show_nat d = [digit_char (d div 10), digit_char (d mod 10)]"
proof -
  assume d: "10 \<le> d" "d < 100"
  then have "d div 10 < 10" by simp
  then have "show_nat (d div 10) = [digit_char (d div 10)]" by (rule show_nat_1)
  with d show ?thesis by (subst show_nat.simps) simp
qed

lemma digit_char_pos: "1 \<le> d \<Longrightarrow> d < 10 \<Longrightarrow> digit_char d \<in> set ''123456789''"
proof -
  assume "1 \<le> d" "d < 10"
  then have "d \<in> {1,2,3,4,5,6,7,8,9}" by auto
  then show ?thesis by (auto simp: digit_char_def)
qed

lemma month_text:
  assumes "1 \<le> m" "m \<le> 12" "mt = show_nat m \<or> mt = zero_pad 2 (show_nat m)"
  shows "month_re mt"
proof (cases "m < 10")
  case True
  with assms(1) have "digit_char m \<in> set ''123456789''" by (rule digit_char_pos)
  with True assms(3) show ?thesis
    by (auto simp: month_re_def show_nat_1 zero_pad_def)
next
  case False
  with assms(2) have "m = 10 \<or> m = 11 \<or> m = 12" by arith
  with assms(3) show ?thesis
    by (auto simp: month_re_def show_nat_2 zero_pad_def digit_char_def)
qed

lemma day_text:
  assumes "1 \<le> d" "d \<le> 31" "dt = show_nat d \<or> dt = zero_pad 2 (show_nat d)"
  shows "day_re dt"
proof (cases "d < 10")
  case True
  with assms(1) have "digit_char d \<in> set ''123456789''" by (rule digit_char_pos)
  with True assms(3) show ?thesis
    by (auto simp: day_re_def show_nat_1 zero_pad_def)
next
  case False
  then have dt: "dt = [digit_char (d div 10), digit_char (d mod 10)]"
    using assms(2,3) by (auto simp: show_nat_2 zero_pad_def)
  show ?thesis
  proof (cases "d < 30")
    case True
    with False have "d div 10 = 1 \<or> d div 10 = 2" by arith
    moreover have "is_digit (digit_char (d mod 10))" by (simp add: is_digit_digit_char)
    ultimately show ?thesis unfolding dt by (auto simp: day_re_def digit_char_def)
  next
    case False
    with assms(2) have "d = 30 \<or> d = 31" by arith
    then show ?thesis unfolding dt by (auto simp: day_re_def digit_char_def)
  qed
qed

lemma days_in_month_le: "days_in_month y m \<le> 31"
  by (simp add: days_in_month_def)

lemma field_text_digits:
  assumes "t = show_nat n \<or> t = zero_pad w (show_nat n)"
  shows "list_all is_digit t"
  using assms
proof
  assume "t = show_nat n"
  then show ?thesis by (simp only: show_nat_digits)
next
  assume "t = zero_pad w (show_nat n)"
  then show ?thesis by (simp only: zero_pad_digits [OF show_nat_digits])
qed

lemma field_text_value:
  assumes "t = show_nat n \<or> t = zero_pad w (show_nat n)"
  shows "py_int t = n"
proof -
  have "py_int t = read_nat t" by (rule py_int_digits [OF field_text_digits [OF assms]])
  also have "read_nat t = n"
    using assms
  proof
    assume "t = show_nat n"
    then show ?thesis by (simp only: read_nat_show_nat)
  next
    assume "t = zero_pad w (show_nat n)"
    then show ?thesis by (simp only: read_nat_zero_pad read_nat_show_nat)
  qed
  finally show ?thesis .
qed

lemma digits_no_slash: "list_all is_digit t \<Longrightarrow> CHR ''/'' \<notin> set t"
  by (auto simp: list_all_iff dest: digit_not_slash)

lemma year_text_length: "y < 10000 \<Longrightarrow> length (zero_pad 4 (show_nat y)) = 4"
proof -
  assume "y < 10000"
  then have "length (show_nat y) \<le> 4" by (rule length_show_nat_4)
  then show ?thesis unfolding zero_pad_def by simp
qed

lemma strptime_mdY_text:
  assumes "1 \<le> m" "m \<le> 12" "1 \<le> d" "d \<le> days_in_month y m" "1 \<le> y" "y \<le> 9999"
    and mt: "mt = show_nat m \<or> mt = zero_pad 2 (show_nat m)"
    and dt: "dt = show_nat d \<or> dt = zero_pad 2 (show_nat d)"
  shows "strptime_mdY (mt @ ''/'' @ dt @ ''/'' @ zero_pad 4 (show_nat y)) = Inr (y, m, d)"
proof -
  let ?yt = "zero_pad 4 (show_nat y)"
  have d31: "d \<le> 31" using assms(4) days_in_month_le [of y m] by simp
  have m_re: "month_re mt" by (rule month_text [OF assms(1,2) mt])
  have d_re: "day_re dt" by (rule day_text [OF assms(3) d31 dt])
  have ms: "CHR ''/'' \<notin> set mt" by (rule digits_no_slash [OF field_text_digits [OF mt]])
  have ds: "CHR ''/'' \<notin> set dt" by (rule digits_no_slash [OF field_text_digits [OF dt]])
  have "y < 10000" using assms(6) by simp
  then have yl: "length ?yt = 4" by (rule year_text_length)
  have yd: "list_all is_digit ?yt" by (simp add: zero_pad_digits show_nat_digits)
  have yv: "py_int ?yt = y" using field_text_value [of ?yt y 4] by simp
  have mv: "py_int mt = m" by (rule field_text_value [OF mt])
  have dv: "py_int dt = d" by (rule field_text_value [OF dt])
  have s1: "split_slash (mt @ ''/'' @ dt @ ''/'' @ ?yt) = Some (mt, dt @ ''/'' @ ?yt)"
    using split_slash_append [OF ms, of "dt @ ''/'' @ ?yt"] by simp
  have s2: "split_slash (dt @ ''/'' @ ?yt) = Some (dt, ?yt)"
    using split_slash_append [OF ds, of ?yt] by simp
  show ?thesis
    using m_re d_re yl yd assms(4,5) s1 s2 yv mv dv by (simp add: strptime_mdY_def)
qed

lemma strip_date_text:
  assumes "list_all is_digit mt" "list_all is_digit dt" "list_all is_digit yt"
  shows "strip (mt @ ''/'' @ dt @ ''/'' @ yt) = mt @ ''/'' @ dt @ ''/'' @ yt"
proof (rule strip_no_blank)
  have "\<not> py_isspace (CHR ''/'')" by (simp add: py_isspace_def)
  with assms show "\<forall>c\<in>set (mt @ ''/'' @ dt @ ''/'' @ yt). \<not> py_isspace c"
    by (auto simp: list_all_iff dest: digit_not_space)
qed

lemma resolve_date_text:
  assumes "\<not> standard_date cfg"
    and "1 \<le> m" "m \<le> 12" "1 \<le> d" "d \<le> days_in_month y m" "1 \<le> y" "y \<le> 9999"
    and mt: "mt = show_nat m \<or> mt = zero_pad 2 (show_nat m)"
    and dt: "dt = show_nat d \<or> dt = zero_pad 2 (show_nat d)"
  shows "resolve_date cfg (PyStr (mt @ ''/'' @ dt @ ''/'' @ zero_pad 4 (show_nat y))) =
           Inr (''YM-'' @ ym_text y m)"
proof -
  have "strip (mt @ ''/'' @ dt @ ''/'' @ zero_pad 4 (show_nat y)) =
      mt @ ''/'' @ dt @ ''/'' @ zero_pad 4 (show_nat y)"
    by (rule strip_date_text [OF field_text_digits [OF mt] field_text_digits [OF dt]])
      (simp add: zero_pad_digits show_nat_digits)
  with strptime_mdY_text [OF assms(2-7) mt dt] assms(1) show ?thesis
    by (simp add: resolve_date_def datetime_as_string_M_def)
qed

lemma str_yearmonth_of:
  assumes "1 \<le> m" "m \<le> 12" "y * 12 + (m - 1) = n"
  shows "str_yearmonth n = ym_text y m"
proof -
  have "m - 1 < 12" using assms(1,2) by simp
  then have "(y * 12 + (m - 1)) div 12 = y" "(y * 12 + (m - 1)) mod 12 = m - 1" by simp_all
  with assms show ?thesis by (simp add: str_yearmonth_def)
qed

text \<open>
  C5. With \<open>standard_date = False\<close> a date is read as month, day and year separated by
  slashes: for every valid month \<open>m\<close>, day \<open>d\<close> and year \<open>y\<close>, the text of \<open>m\<close>, a slash,
  the text of \<open>d\<close>, a slash and the four digits of \<open>y\<close> (month and day on two digits
  or without a leading zero) resolves to the key of month \<open>m\<close> of year \<open>y\<close>. So
  \<open>03/15/2019\<close> gives \<open>YM-2019-03\<close>, while a day-first or a hyphenated text does not
  match. When that month is the one of band \<open>i + 1\<close>, as March 2019 is the one of band 15
  for the start date \<open>2018-01\<close>, the match value of the point is the value stored under
  that key.
\<close>

theorem match_value_of_month_day_year:
  assumes "distinct (map p_id ps)" and "col_names_ok cfg" and "\<not> standard_date cfg"
    and "\<forall>q\<in>set ps. \<exists>k. resolve_date cfg (p_date q) = Inr k"
    and "p \<in> set ps"
    and "1 \<le> m" "m \<le> 12" "1 \<le> d" "d \<le> days_in_month y m" "1 \<le> y" "y \<le> 9999"
    and "mt = show_nat m \<or> mt = zero_pad 2 (show_nat m)"
    and "dt = show_nat d \<or> dt = zero_pad 2 (show_nat d)"
    and "p_date p = PyStr (mt @ ''/'' @ dt @ ''/'' @ zero_pad 4 (show_nat y))"
    and "y * 12 + (m - 1) = ym + i" and "i < r_count ras"
    and "r_index ras (p_x p) (p_y p) = (rrow, rcol)"
  shows "resolve_date cfg (p_date p) = Inr (''YM-'' @ ym_text y m)
     \<and> ym_text y m = str_yearmonth (ym + i)
     \<and> (\<exists>rd v x. extraction cfg ras ym ps = Inr rd \<and> dict_get rd (p_id p) = Some v
           \<and> dict_get v (''YM-'' @ ym_text y m) = Some x \<and> dict_get v ''MATCH_VALUE'' = Some x
           \<and> x = (if rrow < 0 \<or> rrow \<ge> r_height ras \<or> rcol < 0 \<or> rcol \<ge> r_width ras
                   then PyNone
                   else PyFloat (py_round4 (convert_units (varname cfg)
                                   (r_read ras (i + 1) rrow rcol)))))
     \<and> resolve_date cfg (PyStr ''03/15/2019'') = Inr ''YM-2019-03''
     \<and> resolve_date cfg (PyStr ''15/03/2019'') = Inl (ValueError_no_match ''15/03/2019'')
     \<and> resolve_date cfg (PyStr ''03-15-2019'') = Inl (ValueError_no_match ''03-15-2019'')
     \<and> np_datetime64 ''2018-01'' = Inr 24216
     \<and> str_yearmonth (24216 + 14) = ''2019-03''"
proof -
  have res: "resolve_date cfg (p_date p) = Inr (''YM-'' @ ym_text y m)"
    unfolding assms(14) by (rule resolve_date_text [OF assms(3,6-13)])
  have lab: "ym_text y m = str_yearmonth (ym + i)"
    using str_yearmonth_of [OF assms(6,7,15)] by simp
  have ex1: "resolve_date cfg (PyStr ''03/15/2019'') = Inr ''YM-2019-03''"
    using assms(3)
    by (simp add: resolve_date_def strptime_mdY_def split_slash_def
      month_re_def day_re_def is_digit_def py_int_def strip_def py_isspace_def read_nat_def
      digit_val_def days_in_month_def is_leap_def datetime_as_string_M_def
      ym_text_def zero_pad_def show_nat.simps digit_char_def)
  have bad1: "resolve_date cfg (PyStr ''15/03/2019'') = Inl (ValueError_no_match ''15/03/2019'')"
    using assms(3)
    by (simp add: resolve_date_def strptime_mdY_def split_slash_def
      month_re_def day_re_def is_digit_def strip_def py_isspace_def)
  have bad2: "resolve_date cfg (PyStr ''03-15-2019'') = Inl (ValueError_no_match ''03-15-2019'')"
    using assms(3)
    by (simp add: resolve_date_def strptime_mdY_def split_slash_def strip_def py_isspace_def)
  have l19: "str_yearmonth (24216 + 14) = ''2019-03''"
    by (simp add: str_yearmonth_def ym_text_def zero_pad_def show_nat.simps digit_char_def)
  from assms(4) obtain K where K: "\<forall>q\<in>set ps. resolve_date cfg (p_date q) = Inr (K q)"
    using choose_keys by blast
  with assms(5) res have Kp: "K p = ''YM-'' @ ym_text y m" by auto
  let ?s = "series cfg ras ym p"
  let ?key = "''YM-'' @ ym_text y m"
  let ?x = "if rrow < 0 \<or> rrow \<ge> r_height ras \<or> rcol < 0 \<or> rcol \<ge> r_width ras then PyNone
            else PyFloat (py_round4 (convert_units (varname cfg) (r_read ras (i + 1) rrow rcol)))"
  let ?rd = "map (\<lambda>p. (p_id p, matched (series cfg ras ym p) (K p))) ps"
  have ex: "extraction cfg ras ym ps = Inr ?rd"
    by (rule extraction_rows [OF assms(1,2) K])
  have get: "dict_get ?rd (p_id p) = Some (matched ?s ?key)"
    using dict_get_rows [OF assms(1,5), of "\<lambda>p. matched (series cfg ras ym p) (K p)"] Kp
    by simp
  from series_label [OF assms(16), of cfg ym p] assms(17)
  have val: "dict_get ?s ?key = Some ?x"
    unfolding lab by (simp add: cell_value_def)
  then have mv: "dict_get (matched ?s ?key) ''MATCH_VALUE'' = Some ?x"
    by (simp add: matched_value)
  from val matched_label [of ?s ?key "ym_text y m"]
  have l: "dict_get (matched ?s ?key) ?key = Some ?x" by simp
  from res lab ex1 bad1 bad2 np_datetime64_2018_01 l19 ex get l mv show ?thesis by blast
qed

theorem match_value_of_month_day_year_witness:
  "resolve_date demo_cfg (PyStr ''03/15/2019'') = Inr ''YM-2019-03''
   \<and> (\<exists>rd v. extraction demo_cfg demo_raster15 24216 demo_points = Inr rd
          \<and> dict_get rd (PyInt 3) = Some v
          \<and> dict_get v ''YM-2019-03'' = Some (PyFloat 23)
          \<and> dict_get v ''MATCH_VALUE'' = Some (PyFloat 23))"
proof -
  let ?p = "\<lparr>p_id = PyInt 3, p_name = PyStr ''c'', p_date = PyStr ''03/15/2019'', p_x = 1, p_y = 0\<rparr>"
  have 1: "distinct (map p_id demo_points)" by (simp add: demo_points_def)
  have 2: "col_names_ok demo_cfg" by (simp add: col_names_ok_def demo_cfg_def)
  have 3: "\<not> standard_date demo_cfg" by (simp add: demo_cfg_def)
  have 5: "?p \<in> set demo_points" by (simp add: demo_points_def)
  have 6: "(1::nat) \<le> 3" "(3::nat) \<le> 12" "(1::nat) \<le> 15" "15 \<le> days_in_month 2019 3"
    "(1::nat) \<le> 2019" "(2019::nat) \<le> 9999"
    by (simp_all add: days_in_month_def)
  have t: "zero_pad 2 (show_nat 3) = ''03''" "show_nat 15 = ''15''"
    "zero_pad 4 (show_nat 2019) = ''2019''" "ym_text 2019 3 = ''2019-03''"
    by (simp_all add: ym_text_def zero_pad_def show_nat.simps digit_char_def)
  have 12: "''03'' = show_nat 3 \<or> ''03'' = zero_pad 2 (show_nat 3)" by (simp add: t)
  have 13: "''15'' = show_nat 15 \<or> ''15'' = zero_pad 2 (show_nat 15)" by (simp add: t)
  have 14: "p_date ?p = PyStr (''03'' @ ''/'' @ ''15'' @ ''/'' @ zero_pad 4 (show_nat 2019))"
    by (simp add: t)
  have 15: "(2019::nat) * 12 + (3 - 1) = 24216 + 14" by simp
  have 16: "14 < r_count demo_raster15" by (simp add: demo_raster15_def)
  have 17: "r_index demo_raster15 (p_x ?p) (p_y ?p) = (0, 1)"
    by (simp add: demo_raster15_def demo_raster_def)
  have val: "(if (0::int) < 0 \<or> 0 \<ge> r_height demo_raster15 \<or> (1::int) < 0 \<or> 1 \<ge> r_width demo_raster15
      then PyNone
      else PyFloat (py_round4 (convert_units (varname demo_cfg) (r_read demo_raster15 (14 + 1) 0 1))))
     = PyFloat 23"
    by (simp add: demo_raster15_def demo_raster_def demo_cfg_def py_round4_def convert_units_def
        round_half_even_def)
  note th = match_value_of_month_day_year [OF 1 2 3 demo_dates_resolve 5 6 12 13 14 15 16 17]
  have k: "''YM-'' @ ym_text 2019 3 = ''YM-2019-03''" by (simp add: t)
  from th [THEN conjunct1] have a: "resolve_date demo_cfg (PyStr ''03/15/2019'') = Inr ''YM-2019-03''"
    unfolding k by simp
  from th [THEN conjunct2, THEN conjunct2, THEN conjunct1]
  obtain rd v x where r: "extraction demo_cfg demo_raster15 24216 demo_points = Inr rd"
    "dict_get rd (p_id ?p) = Some v" "dict_get v ''YM-2019-03'' = Some x"
    "dict_get v ''MATCH_VALUE'' = Some x" "x = PyFloat 23"
    unfolding k val by blast
  from r(2) have "dict_get rd (PyInt 3) = Some v" by simp
  with a r show ?thesis by blast
qed

subsection \<open>Blanks around the date\<close>

lemma strip_padded:
  assumes "list_all py_isspace ws1" "list_all py_isspace ws2"
  shows "strip (ws1 @ s @ ws2) = strip s"
proof -
  have 1: "dropWhile py_isspace (ws1 @ s @ ws2) = dropWhile py_isspace (s @ ws2)"
  proof (rule dropWhile_append2)
    fix x assume "x \<in> set ws1"
    then show "py_isspace x" using assms(1) by (simp add: list_all_iff)
  qed
  show ?thesis
  proof (cases "\<forall>x\<in>set s. py_isspace x")
    case True
    with assms(2) have a: "dropWhile py_isspace (s @ ws2) = []"
      and b: "dropWhile py_isspace s = []"
      by (auto simp: list_all_iff)
    have "strip (ws1 @ s @ ws2) = []" unfolding strip_def 1 a by simp
    moreover have "strip s = []" unfolding strip_def b by simp
    ultimately show ?thesis by simp
  next
    case False
    then obtain x where "x \<in> set s" "\<not> py_isspace x" by blast
    then have "dropWhile py_isspace (s @ ws2) = dropWhile py_isspace s @ ws2"
      by (rule dropWhile_append1)
    moreover have "dropWhile py_isspace (rev ws2 @ rev (dropWhile py_isspace s)) =
        dropWhile py_isspace (rev (dropWhile py_isspace s))"
    proof (rule dropWhile_append2)
      fix x assume "x \<in> set (rev ws2)"
      then show "py_isspace x" using assms(2) by (simp add: list_all_iff)
    qed
    ultimately show ?thesis using 1 by (simp add: strip_def)
  qed
qed

text \<open>
  C10. With \<open>standard_date = False\<close>, blanks before and after the date text are
  stripped before it is parsed: a padded text resolves exactly as the text itself, to
  the same key when the text parses and to the same error when it does not.
\<close>

theorem padded_date_resolves_alike:
  assumes "\<not> standard_date cfg" and "list_all py_isspace ws1" and "list_all py_isspace ws2"
  shows "resolve_date cfg (PyStr (ws1 @ s @ ws2)) = resolve_date cfg (PyStr s)"
  using assms by (simp add: resolve_date_def strip_padded)

theorem padded_date_resolves_alike_witness:
  "resolve_date demo_cfg (PyStr (''  '' @ ''03/15/2019'' @ [CHR 0x09, CHR '' ''])) =
     resolve_date demo_cfg (PyStr ''03/15/2019'')
   \<and> resolve_date demo_cfg (PyStr ''03/15/2019'') = Inr ''YM-2019-03''"
proof -
  have 1: "\<not> standard_date demo_cfg" by (simp add: demo_cfg_def)
  have 2: "list_all py_isspace ''  ''" "list_all py_isspace [CHR 0x09, CHR '' '']"
    by (simp_all add: py_isspace_def)
  have "resolve_date demo_cfg (PyStr ''03/15/2019'') = Inr ''YM-2019-03''"
    by (simp add: demo_cfg_def resolve_date_def strptime_mdY_def split_slash_def
      month_re_def day_re_def is_digit_def py_int_def strip_def py_isspace_def read_nat_def
      digit_val_def days_in_month_def is_leap_def datetime_as_string_M_def
      ym_text_def zero_pad_def show_nat.simps digit_char_def)
  with padded_date_resolves_alike [OF 1 2, of "''03/15/2019''"] show ?thesis by blast
qed

subsection \<open>Dates in the standard format\<close>

text \<open>
  C2. With \<open>standard_date = True\<close> the date cell goes to
  \<open>numpy.datetime_as_string\<close> as it is. A cell that holds the text \<open>2019-03-15\<close>, or
  any other text, is not a \<open>datetime64\<close>: the call raises \<open>TypeError\<close> and no key is
  produced, while the other branch converts its date to a \<open>datetime64\<close> first.
\<close>

theorem standard_date_text_raises:
  "resolve_date (demo_cfg\<lparr>standard_date := True\<rparr>) (PyStr ''2019-03-15'') = Inl TypeError
   \<and> (\<forall>s. resolve_date (demo_cfg\<lparr>standard_date := True\<rparr>) (PyStr s) = Inl TypeError)
   \<and> resolve_date (demo_cfg\<lparr>standard_date := True\<rparr>) (PyDate64 2019 3 15) = Inr ''YM-2019-03''"
  by (simp add: resolve_date_def datetime_as_string_M_def
      ym_text_def zero_pad_def show_nat.simps digit_char_def)

subsection \<open>Failed preconditions\<close>

text \<open>
  C3, amended. A duplicate in the ID column, or a variable name other than \<open>temp\<close> and
  \<open>precip\<close>, ends the run after the point file is read and before the raster is opened:
  one message is printed and nothing is written. The run ends through \<open>sys.exit()\<close>
  without an argument, so its exit status is 0, not a non-zero one.
\<close>

theorem precondition_failure_exits_before_raster:
  assumes "np_datetime64 (startdate cfg) = Inr ym"
    and "\<not> distinct (map p_id (point_data ev)) \<or> varname cfg \<notin> {''temp'', ''precip''}"
  shows "\<exists>msg. main cfg ev =
           ((if \<not> outfolder_exists ev then [MakeDirs ''output''] else []) @
              [ReadPoints, Print msg], SystemExit None)
         \<and> msg \<in> {fail_duplicate, fail_varname}
         \<and> OpenRaster \<notin> set (fst (main cfg ev))
         \<and> (\<forall>f rows. WriteCsv f rows \<notin> set (fst (main cfg ev)))
         \<and> exit_status (snd (main cfg ev)) = 0"
proof (cases "distinct (map p_id (point_data ev))")
  case False
  with assms(1) have "main cfg ev =
      ((if \<not> outfolder_exists ev then [MakeDirs ''output''] else []) @
         [ReadPoints, Print fail_duplicate], SystemExit None)"
    by (simp add: main_def)
  then show ?thesis by (auto simp: exit_status_def)
next
  case True
  with assms have "main cfg ev =
      ((if \<not> outfolder_exists ev then [MakeDirs ''output''] else []) @
         [ReadPoints, Print fail_varname], SystemExit None)"
    by (simp add: main_def)
  then show ?thesis by (auto simp: exit_status_def)
qed

theorem precondition_failure_exits_before_raster_witness:
  "main (demo_cfg\<lparr>varname := ''wind''\<rparr>) demo_env_dup =
     ([MakeDirs ''output'', ReadPoints, Print fail_duplicate], SystemExit None)
   \<and> OpenRaster \<notin> set (fst (main (demo_cfg\<lparr>varname := ''wind''\<rparr>) demo_env_dup))
   \<and> exit_status (snd (main (demo_cfg\<lparr>varname := ''wind''\<rparr>) demo_env_dup)) = 0"
proof -
  let ?cfg = "demo_cfg\<lparr>varname := ''wind''\<rparr>"
  have 1: "np_datetime64 (startdate ?cfg) = Inr 24216"
    by (simp add: demo_cfg_def np_datetime64_2018_01)
  have 2: "\<not> distinct (map p_id (point_data demo_env_dup)) \<or> varname ?cfg \<notin> {''temp'', ''precip''}"
    by (simp add: demo_env_dup_def)
  have 3: "main ?cfg demo_env_dup =
     ([MakeDirs ''output'', ReadPoints, Print fail_duplicate], SystemExit None)"
    using 1 by (simp add: main_def demo_env_dup_def)
  from precondition_failure_exits_before_raster [OF 1 2] 3 show ?thesis by simp
qed

text \<open>
  C3 as stated fails: with a duplicate ID the run ends with exit status 0.
\<close>

theorem duplicate_ids_exit_status_zero:
  "\<not> distinct (map p_id (point_data demo_env_dup))
   \<and> main demo_cfg demo_env_dup =
       ([MakeDirs ''output'', ReadPoints, Print fail_duplicate], SystemExit None)
   \<and> exit_status (snd (main demo_cfg demo_env_dup)) = 0"
  by (simp add: main_def demo_cfg_def demo_env_dup_def exit_status_def
      np_datetime64_def is_digit_def read_nat_def digit_val_def)

subsection \<open>Dates that do not parse\<close>

lemma strptime_errors:
  "strptime_mdY t = Inl e \<Longrightarrow>
   e = ValueError_no_match t \<or> (\<exists>u. e = ValueError_unconverted u) \<or> e = ValueError_out_of_range"
  by (auto simp: strptime_mdY_def Let_def split: option.splits if_splits)

lemma match_point_fails:
  assumes "col_names_ok cfg" and "resolve_date cfg (p_date p) = Inl e"
  shows "match_point cfg (series cfg ras ym p) = Inl e"
  using assms by (simp add: match_point_def series_obdate)

lemma extraction_fails:
  assumes "distinct (map p_id (ps1 @ p # ps2))" and "col_names_ok cfg"
    and "\<forall>q\<in>set ps1. \<exists>k. resolve_date cfg (p_date q) = Inr k"
    and "resolve_date cfg (p_date p) = Inl e"
  shows "extraction cfg ras ym (ps1 @ p # ps2) = Inl e"
proof -
  have ok: "\<forall>q\<in>set ps1. \<exists>w. match_point cfg (series cfg ras ym q) = Inr w"
    using assms(2,3) match_point_series by blast
  have "for_items (match_point cfg)
      (map (\<lambda>p. (p_id p, series cfg ras ym p)) (ps1 @ p # ps2)) = Inl e"
    by (rule for_items_fail [OF ok match_point_fails [OF assms(2,4)]])
  then show ?thesis by (simp only: extraction_def sampling_series [OF assms(1)] sum.case)
qed

text \<open>
  C9 as stated fails. A date text that does not match \<open>%m/%d/%Y\<close> is not confined to
  the match value of its record: \<open>strptime\<close> raises, nothing catches the exception, and
  the run ends there, before the output file is written, so the time series computed for
  every point are lost with it. The exception carries the stripped text and not the ID
  of the point: the run ends alike whatever the ID is.
\<close>

theorem malformed_date_loses_all_output:
  "main demo_cfg (demo_env_bad_date 7) =
     ([MakeDirs ''output'', ReadPoints, OpenRaster, OpenRaster],
      Uncaught (ValueError_no_match ''2019-03-15''))
   \<and> main demo_cfg (demo_env_bad_date 8) = main demo_cfg (demo_env_bad_date 7)
   \<and> sampling demo_cfg demo_raster 24216 (point_data (demo_env_bad_date 7)) =
       Inr [(PyInt 7,
             [(''OBS_NAME'', PyStr ''a''), (''OBS_DATE'', PyStr ''2019-03-15''),
              (''RASTER_ROW'', PyInt 1), (''RASTER_COL'', PyInt 0),
              (''YM-2018-01'', PyFloat 9), (''YM-2018-02'', PyFloat 10),
              (''YM-2018-03'', PyFloat 11)])]"
  by (simp add: main_def extraction_def sampling_def locate_points_def locate_point_def
      sample_point_def match_point_def resolve_date_def dict_of_def
      demo_cfg_def demo_env_bad_date_def demo_raster_def upt_rec
      np_datetime64_def is_digit_def read_nat_def digit_val_def
      strptime_mdY_def split_slash_def strip_def py_isspace_def
      str_yearmonth_def ym_text_def zero_pad_def show_nat.simps digit_char_def
      py_round4_def convert_units_def round_half_even_def)

text \<open>
  C9, amended. With \<open>standard_date = False\<close>, the first point whose stripped date text
  \<open>strptime\<close> refuses ends the whole run with that \<open>ValueError\<close> uncaught and exit
  status 1, after the raster was opened twice and with no output file written. The
  error of a text that does not match carries the stripped text.
\<close>

theorem malformed_date_aborts_run:
  assumes "np_datetime64 (startdate cfg) = Inr ym"
    and "distinct (map p_id (point_data ev))"
    and "varname cfg \<in> {''temp'', ''precip''}"
    and "col_names_ok cfg" and "\<not> standard_date cfg"
    and "point_data ev = ps1 @ p # ps2"
    and "\<forall>q\<in>set ps1. \<exists>k. resolve_date cfg (p_date q) = Inr k"
    and "p_date p = PyStr s" and "strptime_mdY (strip s) = Inl e"
  shows "main cfg ev =
           ((if \<not> outfolder_exists ev then [MakeDirs ''output''] else []) @
              [ReadPoints, OpenRaster, OpenRaster], Uncaught e)
         \<and> (\<forall>f rows. WriteCsv f rows \<notin> set (fst (main cfg ev)))
         \<and> exit_status (snd (main cfg ev)) = 1
         \<and> (e = ValueError_no_match (strip s) \<or> (\<exists>u. e = ValueError_unconverted u)
              \<or> e = ValueError_out_of_range)"
proof -
  have "resolve_date cfg (p_date p) = Inl e"
    using assms(5,8,9) by (simp add: resolve_date_def)
  with assms(2,4,6,7) have "extraction cfg (raster_data ev) ym (point_data ev) = Inl e"
    by (simp only: extraction_fails)
  with assms(1,2,3) have m: "main cfg ev =
      ((if \<not> outfolder_exists ev then [MakeDirs ''output''] else []) @
         [ReadPoints, OpenRaster, OpenRaster], Uncaught e)"
    by (simp add: main_def)
  then show ?thesis using strptime_errors [OF assms(9)] by (auto simp: exit_status_def)
qed

theorem malformed_date_aborts_run_witness:
  "main demo_cfg (demo_env_bad_date 7) =
     ([MakeDirs ''output'', ReadPoints, OpenRaster, OpenRaster],
      Uncaught (ValueError_no_match ''2019-03-15''))
   \<and> exit_status (snd (main demo_cfg (demo_env_bad_date 7))) = 1"
proof -
  let ?p = "\<lparr>p_id = PyInt 7, p_name = PyStr ''a'', p_date = PyStr ''2019-03-15'', p_x = 0, p_y = 1\<rparr>"
  have 1: "np_datetime64 (startdate demo_cfg) = Inr 24216"
    by (simp add: demo_cfg_def np_datetime64_2018_01)
  have 2: "distinct (map p_id (point_data (demo_env_bad_date 7)))"
    by (simp add: demo_env_bad_date_def)
  have 3: "varname demo_cfg \<in> {''temp'', ''precip''}" by (simp add: demo_cfg_def)
  have 4: "col_names_ok demo_cfg" by (simp add: col_names_ok_def demo_cfg_def)
  have 5: "\<not> standard_date demo_cfg" by (simp add: demo_cfg_def)
  have 6: "point_data (demo_env_bad_date 7) = [] @ ?p # []" by (simp add: demo_env_bad_date_def)
  have 7: "\<forall>q\<in>set []. \<exists>k. resolve_date demo_cfg (p_date q) = Inr k" by simp
  have 8: "p_date ?p = PyStr ''2019-03-15''" by simp
  have 9: "strptime_mdY (strip ''2019-03-15'') = Inl (ValueError_no_match ''2019-03-15'')"
    by (simp add: strptime_mdY_def split_slash_def strip_def py_isspace_def)
  have o: "\<not> outfolder_exists (demo_env_bad_date 7)" by (simp add: demo_env_bad_date_def)
  from malformed_date_aborts_run [OF 1 2 3 4 5 6 7 8 9]
  show ?thesis by (auto simp: o)
qed

end
